theory Spec2Isabelle
  imports Main "HOL-Library.Sublist"
begin

section \<open>Python values and strings\<close>

text \<open>
  A Python \<^verbatim>\<open>str\<close> is a sequence of Unicode code points, so a string is a list of
  natural numbers; slicing and \<^verbatim>\<open>len\<close> count code points. The literals of the
  program are ASCII apart from the rupee sign U+20B9.
\<close>

type_synonym ustring = "nat list"

definition u :: "string \<Rightarrow> ustring" where
  "u s = map of_char s"

definition rupee :: nat where
  "rupee = 8377"

text \<open>What \<^verbatim>\<open>match.group(i)\<close> returns: a string, or \<^verbatim>\<open>None\<close> for a group that did
  not take part in the match.\<close>

datatype pyval = PNone | PStr ustring

datatype exn = AttributeError | TypeError

text \<open>
  The character tables of the interpreter's Unicode database are not part of the
  repository; they are a parameter of every function that consults them.
  \<^item> \<open>isspace\<close>: the characters \<^verbatim>\<open>\s\<close> matches and \<^verbatim>\<open>str.strip()\<close> removes;
  \<^item> \<open>isdecimal\<close>: the characters \<^verbatim>\<open>\d\<close> matches;
  \<^item> \<open>lower\<close>: \<^verbatim>\<open>str.lower()\<close>;
  \<^item> \<open>ieq c x\<close>: under \<^verbatim>\<open>re.IGNORECASE\<close> the pattern character \<open>c\<close> matches the
    subject character \<open>x\<close>.
\<close>

record tables =
  isspace :: "nat \<Rightarrow> bool"
  isdecimal :: "nat \<Rightarrow> bool"
  lower :: "ustring \<Rightarrow> ustring"
  ieq :: "nat \<Rightarrow> nat \<Rightarrow> bool"

definition ascii_lower :: "nat \<Rightarrow> nat" where
  "ascii_lower c = (if 65 \<le> c \<and> c \<le> 90 then c + 32 else c)"

text \<open>The tables on ASCII text (and on every character that is neither cased, a digit
  nor white space, such as the rupee sign): used to run the model on concrete inputs.\<close>

definition ascii_tables :: tables where
  "ascii_tables = \<lparr>
     isspace = (\<lambda>c. (9 \<le> c \<and> c \<le> 13) \<or> (28 \<le> c \<and> c \<le> 32)),
     isdecimal = (\<lambda>c. 48 \<le> c \<and> c \<le> 57),
     lower = map ascii_lower,
     ieq = (\<lambda>c x. ascii_lower x = ascii_lower c) \<rparr>"

subsection \<open>String methods\<close>

definition strip :: "tables \<Rightarrow> ustring \<Rightarrow> ustring" where
  "strip U s = rev (dropWhile (isspace U) (rev (dropWhile (isspace U) s)))"

fun contains :: "ustring \<Rightarrow> ustring \<Rightarrow> bool" where
  "contains sub [] = (sub = [])"
| "contains sub (x # xs) = (prefix sub (x # xs) \<or> contains sub xs)"

text \<open>\<^verbatim>\<open>s.replace(old, new)\<close> for a non-empty \<open>old\<close>: the occurrences are replaced from
  the left, without overlap. The counter is the number of characters of the current
  occurrence still to be dropped.\<close>

fun replace_go :: "ustring \<Rightarrow> ustring \<Rightarrow> nat \<Rightarrow> ustring \<Rightarrow> ustring" where
  "replace_go old new k [] = []"
| "replace_go old new (Suc k) (x # xs) = replace_go old new k xs"
| "replace_go old new 0 (x # xs) =
     (if prefix old (x # xs) then new @ replace_go old new (length old - 1) xs
      else x # replace_go old new 0 xs)"

definition replace :: "ustring \<Rightarrow> ustring \<Rightarrow> ustring \<Rightarrow> ustring" where
  "replace old new s = replace_go old new 0 s"

text \<open>\<^verbatim>\<open>s.split(sep)\<close> for a one-character separator.\<close>

fun split_on :: "nat \<Rightarrow> ustring \<Rightarrow> ustring list" where
  "split_on c [] = [[]]"
| "split_on c (x # xs) =
     (if x = c then [] # split_on c xs
      else (case split_on c xs of [] \<Rightarrow> [[x]] | l # ls \<Rightarrow> (x # l) # ls))"

text \<open>\<^verbatim>\<open>sep.join(parts)\<close>.\<close>

fun join :: "ustring \<Rightarrow> ustring list \<Rightarrow> ustring" where
  "join sep [] = []"
| "join sep [p] = p"
| "join sep (p # q # ps) = p @ sep @ join sep (q # ps)"

section \<open>Regular expressions\<close>

text \<open>
  The constructs of \<^verbatim>\<open>re\<close> that the program's patterns use. A repetition is always of
  a single character (a literal, the dot or a class) in these patterns.
\<close>

datatype citem = CLit nat | CRange nat nat | CDigit | CSpace

datatype atom = Lit nat | Dot | Set bool "citem list"

datatype rx =
    At atom
  | Seq rx rx
  | Alt rx rx
  | Rep atom nat "nat option" bool
  | Opt rx
  | Grp nat rx
  | Look rx
  | Bol
  | Eol
  | Eps

record flags =
  icase :: bool
  dotall :: bool

definition no_flags :: flags where
  "no_flags = \<lparr> icase = False, dotall = False \<rparr>"

definition ignorecase :: flags where
  "ignorecase = \<lparr> icase = True, dotall = False \<rparr>"

definition ignorecase_dotall :: flags where
  "ignorecase_dotall = \<lparr> icase = True, dotall = True \<rparr>"

fun citem_ok :: "tables \<Rightarrow> bool \<Rightarrow> citem \<Rightarrow> nat \<Rightarrow> bool" where
  "citem_ok U ic (CLit c) x = (if ic then ieq U c x else x = c)"
| "citem_ok U ic (CRange a b) x =
     (if ic then list_ex (\<lambda>c. ieq U c x) [a..<Suc b] else a \<le> x \<and> x \<le> b)"
| "citem_ok U ic CDigit x = isdecimal U x"
| "citem_ok U ic CSpace x = isspace U x"

fun atom_ok :: "tables \<Rightarrow> flags \<Rightarrow> atom \<Rightarrow> nat \<Rightarrow> bool" where
  "atom_ok U fl (Lit c) x = (if icase fl then ieq U c x else x = c)"
| "atom_ok U fl Dot x = (dotall fl \<or> x \<noteq> 10)"
| "atom_ok U fl (Set neg items) x = (list_ex (\<lambda>it. citem_ok U (icase fl) it x) items \<noteq> neg)"

text \<open>
  A matcher state is the position in the subject, the rest of the subject from there,
  and the groups captured so far (latest first). \<open>rmatch\<close> lists the states in which a
  match of the pattern, begun in the given state, can end, in the order in which the
  backtracking matcher tries them: the head of the list is the match it reports.
\<close>

type_synonym mstate = "nat \<times> ustring \<times> (nat \<times> ustring) list"

fun rmatch :: "tables \<Rightarrow> flags \<Rightarrow> rx \<Rightarrow> mstate \<Rightarrow> mstate list" where
  "rmatch U fl (At a) (pos, rest, caps) =
     (case rest of [] \<Rightarrow> []
      | x # xs \<Rightarrow> if atom_ok U fl a x then [(Suc pos, xs, caps)] else [])"
| "rmatch U fl (Seq a b) st = concat (map (rmatch U fl b) (rmatch U fl a st))"
| "rmatch U fl (Alt a b) st = rmatch U fl a st @ rmatch U fl b st"
| "rmatch U fl (Rep a lo hi greedy) (pos, rest, caps) =
     (let n = length (takeWhile (atom_ok U fl a) rest);
          m = (case hi of None \<Rightarrow> n | Some h \<Rightarrow> min h n);
          ks = [lo..<Suc m]
      in map (\<lambda>k. (pos + k, drop k rest, caps)) (if greedy then rev ks else ks))"
| "rmatch U fl (Opt a) st = rmatch U fl a st @ [st]"
| "rmatch U fl (Grp i a) (pos, rest, caps) =
     map (\<lambda>(pos', rest', caps'). (pos', rest', (i, take (pos' - pos) rest) # caps'))
         (rmatch U fl a (pos, rest, caps))"
| "rmatch U fl (Look a) st = (if rmatch U fl a st = [] then [] else [st])"
| "rmatch U fl Bol (pos, rest, caps) = (if pos = 0 then [(pos, rest, caps)] else [])"
| "rmatch U fl Eol (pos, rest, caps) =
     (if rest = [] \<or> rest = [10] then [(pos, rest, caps)] else [])"
| "rmatch U fl Eps st = [st]"

text \<open>A match object: where the match starts and ends, and its groups.\<close>

type_synonym match = "nat \<times> nat \<times> (nat \<times> ustring) list"

definition group :: "match \<Rightarrow> nat \<Rightarrow> pyval" where
  "group m i = (case map_of (snd (snd m)) i of None \<Rightarrow> PNone | Some s \<Rightarrow> PStr s)"

text \<open>\<^verbatim>\<open>re.match\<close> tries the start of the subject only; \<^verbatim>\<open>re.search\<close> tries every
  position from the left.\<close>

definition match_at :: "tables \<Rightarrow> flags \<Rightarrow> rx \<Rightarrow> nat \<Rightarrow> ustring \<Rightarrow> match option" where
  "match_at U fl r pos rest =
     (case rmatch U fl r (pos, rest, []) of [] \<Rightarrow> None
      | (e, _, caps) # _ \<Rightarrow> Some (pos, e, caps))"

fun search_from :: "tables \<Rightarrow> flags \<Rightarrow> rx \<Rightarrow> nat \<Rightarrow> ustring \<Rightarrow> match option" where
  "search_from U fl r pos [] = match_at U fl r pos []"
| "search_from U fl r pos (x # xs) =
     (case match_at U fl r pos (x # xs) of
        Some m \<Rightarrow> Some m
      | None \<Rightarrow> search_from U fl r (Suc pos) xs)"

definition re_match :: "tables \<Rightarrow> flags \<Rightarrow> rx \<Rightarrow> ustring \<Rightarrow> match option" where
  "re_match U fl r s = match_at U fl r 0 s"

definition re_search :: "tables \<Rightarrow> flags \<Rightarrow> rx \<Rightarrow> ustring \<Rightarrow> match option" where
  "re_search U fl r s = search_from U fl r 0 s"

text \<open>
  \<^verbatim>\<open>re.sub(pattern, repl, s)\<close> with a replacement that refers to no group: the
  matches are found from the left without overlap. The counter is the number of
  characters of the current match still to be dropped. No pattern that the program
  passes to \<^verbatim>\<open>re.sub\<close> matches the empty string; an empty match inserts the
  replacement and moves on by one character.
\<close>

fun sub_go :: "tables \<Rightarrow> flags \<Rightarrow> rx \<Rightarrow> ustring \<Rightarrow> nat \<Rightarrow> nat \<Rightarrow> ustring \<Rightarrow> ustring" where
  "sub_go U fl r repl k pos [] =
     (case match_at U fl r pos [] of None \<Rightarrow> [] | Some m \<Rightarrow> if k = 0 then repl else [])"
| "sub_go U fl r repl (Suc k) pos (x # xs) = sub_go U fl r repl k (Suc pos) xs"
| "sub_go U fl r repl 0 pos (x # xs) =
     (case match_at U fl r pos (x # xs) of
        None \<Rightarrow> x # sub_go U fl r repl 0 (Suc pos) xs
      | Some (b, e, caps) \<Rightarrow>
          if e = pos then repl @ x # sub_go U fl r repl 0 (Suc pos) xs
          else repl @ sub_go U fl r repl (e - pos - 1) (Suc pos) xs)"

definition re_sub :: "tables \<Rightarrow> flags \<Rightarrow> rx \<Rightarrow> ustring \<Rightarrow> ustring \<Rightarrow> ustring" where
  "re_sub U fl r repl s = sub_go U fl r repl 0 0 s"

text \<open>Pattern notation: a literal string, a sequence, and the common repetitions.\<close>

fun lit :: "string \<Rightarrow> rx" where
  "lit [] = Eps"
| "lit [c] = At (Lit (of_char c))"
| "lit (c # cs) = Seq (At (Lit (of_char c))) (lit cs)"

fun cat :: "rx list \<Rightarrow> rx" where
  "cat [] = Eps"
| "cat [r] = r"
| "cat (r # rs) = Seq r (cat rs)"

definition star :: "atom \<Rightarrow> rx" where
  "star a = Rep a 0 None True"

definition plus :: "atom \<Rightarrow> rx" where
  "plus a = Rep a 1 None True"

definition opt1 :: "atom \<Rightarrow> rx" where
  "opt1 a = Rep a 0 (Some 1) True"

definition exactly :: "nat \<Rightarrow> atom \<Rightarrow> rx" where
  "exactly n a = Rep a n (Some n) True"

definition ord :: "char \<Rightarrow> nat" where
  "ord c = of_char c"

definition space :: atom where
  "space = Set False [CSpace]"

definition digit :: atom where
  "digit = Set False [CDigit]"

section \<open>The value cleaners\<close>

text \<open>\<^verbatim>\<open>clean_text\<close>: the pattern is \<^verbatim>\<open>\s+\<close>.\<close>

definition clean_text :: "tables \<Rightarrow> ustring \<Rightarrow> ustring" where
  "clean_text U text =
     (if text = [] then []
      else let text1 = re_sub U no_flags (plus space) (u '' '') text;
               text2 = replace (u [CHR 0x0D]) (u [CHR 0x0A])
                         (replace (u [CHR 0x0D, CHR 0x0A]) (u [CHR 0x0A]) text1)
           in strip U text2)"

text \<open>\<^verbatim>\<open>clean_currency\<close>: the patterns are \<^verbatim>\<open>[^\d.,]\<close> and \<^verbatim>\<open>,\<close>. The argument is a
  string or \<^verbatim>\<open>None\<close>; both \<^verbatim>\<open>None\<close> and the empty string are falsy.\<close>

definition truthy :: "pyval \<Rightarrow> bool" where
  "truthy v = (case v of PNone \<Rightarrow> False | PStr s \<Rightarrow> s \<noteq> [])"

definition py_str :: "pyval \<Rightarrow> ustring" where
  "py_str v = (case v of PNone \<Rightarrow> u ''None'' | PStr s \<Rightarrow> s)"

definition clean_currency :: "tables \<Rightarrow> pyval \<Rightarrow> ustring" where
  "clean_currency U amount_str =
     (if \<not> truthy amount_str then u ''0.00''
      else let cleaned = re_sub U no_flags
                           (At (Set True [CDigit, CLit (ord CHR ''.''), CLit (ord CHR '','')]))
                           [] (py_str amount_str);
               cleaned = re_sub U no_flags (lit '','') [] cleaned
           in if cleaned \<noteq> [] then cleaned else u ''0.00'')"

text \<open>\<^verbatim>\<open>len(v)\<close> raises a \<^verbatim>\<open>TypeError\<close> on \<^verbatim>\<open>None\<close>; an f-string writes \<^verbatim>\<open>None\<close> as the
  word.\<close>

definition py_len :: "pyval \<Rightarrow> exn + nat" where
  "py_len v = (case v of PNone \<Rightarrow> Inl TypeError | PStr s \<Rightarrow> Inr (length s))"

text \<open>\<^verbatim>\<open>standardize_date\<close>: the four patterns, in the order of the list in the source:
  \<^verbatim>\<open>(\d{2})\.(\d{2})\.(\d{4})\<close>, \<^verbatim>\<open>(\d{2})/(\d{2})/(\d{4})\<close>,
  \<^verbatim>\<open>(\d{2})-(\d{2})-(\d{4})\<close> and \<^verbatim>\<open>(\d{4})-(\d{2})-(\d{2})\<close>.\<close>

definition dmy_pattern :: "char \<Rightarrow> rx" where
  "dmy_pattern sep =
     cat [Grp 1 (exactly 2 digit), At (Lit (ord sep)), Grp 2 (exactly 2 digit),
          At (Lit (ord sep)), Grp 3 (exactly 4 digit)]"

definition ymd_pattern :: rx where
  "ymd_pattern =
     cat [Grp 1 (exactly 4 digit), At (Lit (ord CHR ''-'')), Grp 2 (exactly 2 digit),
          At (Lit (ord CHR ''-'')), Grp 3 (exactly 2 digit)]"

definition date_patterns :: "rx list" where
  "date_patterns = [dmy_pattern CHR ''.'', dmy_pattern CHR ''/'', dmy_pattern CHR ''-'', ymd_pattern]"

fun date_loop :: "tables \<Rightarrow> rx list \<Rightarrow> ustring \<Rightarrow> exn + ustring" where
  "date_loop U [] date_str = Inr date_str"
| "date_loop U (pattern # patterns) date_str =
     (case re_search U no_flags pattern date_str of
        None \<Rightarrow> date_loop U patterns date_str
      | Some m \<Rightarrow>
          (case py_len (group m 1) of
             Inl e \<Rightarrow> Inl e
           | Inr n \<Rightarrow>
               if n = 4
               then Inr (py_str (group m 3) @ u ''/'' @ py_str (group m 2) @ u ''/'' @ py_str (group m 1))
               else Inr (py_str (group m 1) @ u ''/'' @ py_str (group m 2) @ u ''/'' @ py_str (group m 3))))"

definition standardize_date :: "tables \<Rightarrow> ustring \<Rightarrow> exn + ustring" where
  "standardize_date U date_str =
     (if date_str = [] \<or> date_str = u ''N/A'' then Inr (u ''N/A'')
      else date_loop U date_patterns date_str)"

text \<open>A string of the form DD/MM/YYYY, each of D, M and Y a decimal digit.\<close>

definition is_std_date :: "tables \<Rightarrow> ustring \<Rightarrow> bool" where
  "is_std_date U s =
     (length s = 10 \<and> s ! 2 = ord CHR ''/'' \<and> s ! 5 = ord CHR ''/''
      \<and> list_all (isdecimal U) (take 2 s @ take 2 (drop 3 s) @ drop 6 s))"

section \<open>Vendor detection\<close>

definition detect_invoice_type :: "tables \<Rightarrow> ustring \<Rightarrow> ustring \<Rightarrow> ustring" where
  "detect_invoice_type U text filename =
     (let text_lower = lower U text;
          filename_lower = lower U filename
      in if contains (u ''amazon'') filename_lower then u ''amazon''
         else if contains (u ''flipkart'') filename_lower then u ''flipkart''
         else if contains (u ''amazon'') text_lower \<or> contains (u ''ASSPL-Amazon'') text
              then u ''amazon''
         else if contains (u ''flipkart'') text_lower then u ''flipkart''
         else u ''unknown'')"

section \<open>Field extraction\<close>

text \<open>
  The record under construction is the dictionary \<^verbatim>\<open>data\<close>: a map from the field names
  to Python values. Each block of the \<^verbatim>\<open>try\<close> body of an extractor computes at most one
  value and stores it under one key. A block is modelled by its key and its outcome:
  \<open>None\<close> when the block stores nothing (no pattern matched, or its own condition
  failed), \<open>Some (Inr v)\<close> when it stores \<open>v\<close>, and \<open>Some (Inl e)\<close> when it raises \<open>e\<close>
  before storing anything.
\<close>

type_synonym data = "string \<rightharpoonup> pyval"

type_synonym outcome = "(exn + pyval) option"

definition assign :: "string \<Rightarrow> outcome \<Rightarrow> data \<Rightarrow> exn + data" where
  "assign key r d =
     (case r of None \<Rightarrow> Inr d
      | Some (Inl e) \<Rightarrow> Inl e
      | Some (Inr v) \<Rightarrow> Inr (d(key \<mapsto> v)))"

text \<open>
  The body of \<^verbatim>\<open>try: ... except Exception\<close>: the blocks run in order on the dictionary,
  which is updated in place; the first exception ends the body, and the handler only
  prints. The result is the dictionary as it then stands, and the exception if any.
\<close>

fun run_rules :: "(string \<times> outcome) list \<Rightarrow> data \<Rightarrow> data \<times> exn option" where
  "run_rules [] d = (d, None)"
| "run_rules ((key, r) # rs) d =
     (case assign key r d of
        Inl e \<Rightarrow> (d, Some e)
      | Inr d' \<Rightarrow> run_rules rs d')"

text \<open>\<^verbatim>\<open>for pattern in patterns: match = re.search(pattern, text, flags); if match: ...; break\<close>\<close>

fun first_search :: "tables \<Rightarrow> flags \<Rightarrow> rx list \<Rightarrow> ustring \<Rightarrow> match option" where
  "first_search U fl [] text = None"
| "first_search U fl (pattern # patterns) text =
     (case re_search U fl pattern text of
        Some m \<Rightarrow> Some m
      | None \<Rightarrow> first_search U fl patterns text)"

text \<open>\<^verbatim>\<open>v.strip()\<close> raises an \<^verbatim>\<open>AttributeError\<close> on \<^verbatim>\<open>None\<close>.\<close>

definition py_strip :: "tables \<Rightarrow> pyval \<Rightarrow> exn + ustring" where
  "py_strip U v = (case v of PNone \<Rightarrow> Inl AttributeError | PStr s \<Rightarrow> Inr (strip U s))"

text \<open>The three shapes of block that recur: store the stripped group, store the cleaned
  amount, store the standardised date of the stripped group.\<close>

definition stripped_group :: "tables \<Rightarrow> match option \<Rightarrow> outcome" where
  "stripped_group U mo =
     (case mo of None \<Rightarrow> None
      | Some m \<Rightarrow>
          Some (case py_strip U (group m 1) of Inl e \<Rightarrow> Inl e | Inr s \<Rightarrow> Inr (PStr s)))"

definition currency_group :: "tables \<Rightarrow> match option \<Rightarrow> outcome" where
  "currency_group U mo =
     (case mo of None \<Rightarrow> None
      | Some m \<Rightarrow> Some (Inr (PStr (clean_currency U (group m 1)))))"

definition date_group :: "tables \<Rightarrow> match option \<Rightarrow> outcome" where
  "date_group U mo =
     (case mo of None \<Rightarrow> None
      | Some m \<Rightarrow>
          Some (case py_strip U (group m 1) of
                  Inl e \<Rightarrow> Inl e
                | Inr s \<Rightarrow> (case standardize_date U s of Inl e \<Rightarrow> Inl e | Inr t \<Rightarrow> Inr (PStr t))))"

text \<open>The address blocks: \<^verbatim>\<open>addr = m.group(1).strip(); addr = re.sub(r'\s+', ' ', addr);
  data[key] = addr[:150]\<close>.\<close>

definition address_group :: "tables \<Rightarrow> match option \<Rightarrow> outcome" where
  "address_group U mo =
     (case mo of None \<Rightarrow> None
      | Some m \<Rightarrow>
          Some (case py_strip U (group m 1) of
                  Inl e \<Rightarrow> Inl e
                | Inr addr \<Rightarrow>
                    Inr (PStr (take 150 (re_sub U no_flags (plus space) (u '' '') addr)))))"

subsection \<open>Pattern fragments\<close>

fun alts :: "rx list \<Rightarrow> rx" where
  "alts [] = Eps"
| "alts [r] = r"
| "alts (r # rs) = Alt r (alts rs)"

definition ws0 :: rx where "ws0 = star space"
definition ws1 :: rx where "ws1 = plus space"

text \<open>\<^verbatim>\<open>[:\s]*\<close>\<close>
definition colon_ws :: rx where
  "colon_ws = star (Set False [CLit (ord CHR '':''), CSpace])"

text \<open>\<^verbatim>\<open>[\d,]+\.?\d*\<close>\<close>
definition amount :: rx where
  "amount = cat [plus (Set False [CDigit, CLit (ord CHR '','')]), opt1 (Lit (ord CHR ''.'')), star digit]"

definition Rs :: rx where "Rs = At (Lit rupee)"

text \<open>\<^verbatim>\<open>[^:]+?\<close>\<close>
definition no_colon_lazy :: rx where
  "no_colon_lazy = Rep (Set True [CLit (ord CHR '':'')]) 1 None False"

text \<open>The shape of the four address patterns, \<^verbatim>\<open>START([^:]+?)(?=STOP)\<close>: the start marker
  with the separators that may follow it, the captured span, and the stop markers in a
  lookahead.\<close>

definition address_pattern :: "rx list \<Rightarrow> rx \<Rightarrow> rx" where
  "address_pattern start stop = cat (start @ [Grp 1 no_colon_lazy, Look stop])"

text \<open>\<^verbatim>\<open>[^\n]+\<close>\<close>
definition line_rest :: rx where
  "line_rest = plus (Set True [CLit 10])"

text \<open>\<^verbatim>\<open>.*?\<close> and \<^verbatim>\<open>.*\<close>\<close>
definition any_lazy :: rx where "any_lazy = Rep Dot 0 None False"
definition any_greedy :: rx where "any_greedy = Rep Dot 0 None True"

text \<open>\<^verbatim>\<open>[^R]*R?\s*\<close>, with the rupee sign U+20B9 for R\<close>
definition upto_rupee :: rx where
  "upto_rupee = cat [star (Set True [CLit rupee]), opt1 (Lit rupee), ws0]"

definition upper_digit :: atom where
  "upper_digit = Set False [CRange (ord CHR ''A'') (ord CHR ''Z''), CRange (ord CHR ''0'') (ord CHR ''9'')]"

subsection \<open>The Amazon rule set\<close>

text \<open>In the comments that quote a pattern of the source, R stands for the rupee sign.\<close>

definition amazon_defaults :: "ustring \<Rightarrow> data" where
  "amazon_defaults filename =
     [''File Name'' \<mapsto> PStr filename,
      ''Invoice Source'' \<mapsto> PStr (u ''Amazon''),
      ''Order Number'' \<mapsto> PStr (u ''N/A''),
      ''Invoice Number'' \<mapsto> PStr (u ''N/A''),
      ''Order Date'' \<mapsto> PStr (u ''N/A''),
      ''Invoice Date'' \<mapsto> PStr (u ''N/A''),
      ''Product Name'' \<mapsto> PStr (u ''N/A''),
      ''HSN Code'' \<mapsto> PStr (u ''N/A''),
      ''Quantity'' \<mapsto> PStr (u ''1''),
      ''Unit Price'' \<mapsto> PStr (u ''0.00''),
      ''Net Amount'' \<mapsto> PStr (u ''0.00''),
      ''Tax Rate'' \<mapsto> PStr (u ''N/A''),
      ''Tax Amount'' \<mapsto> PStr (u ''0.00''),
      ''Total Amount'' \<mapsto> PStr (u ''0.00''),
      ''Shipping Charges'' \<mapsto> PStr (u ''0.00''),
      ''Grand Total'' \<mapsto> PStr (u ''0.00''),
      ''Payment Mode'' \<mapsto> PStr (u ''N/A''),
      ''Seller Name'' \<mapsto> PStr (u ''N/A''),
      ''Seller GST'' \<mapsto> PStr (u ''N/A''),
      ''Billing Address'' \<mapsto> PStr (u ''N/A''),
      ''Shipping Address'' \<mapsto> PStr (u ''N/A'')]"

text \<open>\<^verbatim>\<open>Order\s*Number[:\s]*([0-9\-]+)\<close>, \<^verbatim>\<open>Order\s*ID[:\s]*([0-9\-]+)\<close>,
  \<^verbatim>\<open>Amazon\s*Order[:\s]*([0-9\-]+)\<close>\<close>

definition digits_dash :: atom where
  "digits_dash = Set False [CRange (ord CHR ''0'') (ord CHR ''9''), CLit (ord CHR ''-'')]"

definition amazon_order_patterns :: "rx list" where
  "amazon_order_patterns =
     [cat [lit ''Order'', ws0, lit ''Number'', colon_ws, Grp 1 (plus digits_dash)],
      cat [lit ''Order'', ws0, lit ''ID'', colon_ws, Grp 1 (plus digits_dash)],
      cat [lit ''Amazon'', ws0, lit ''Order'', colon_ws, Grp 1 (plus digits_dash)]]"

definition amazon_order_number :: "tables \<Rightarrow> ustring \<Rightarrow> outcome" where
  "amazon_order_number U text =
     stripped_group U (first_search U ignorecase amazon_order_patterns text)"

text \<open>\<^verbatim>\<open>Invoice\s*Number[:\s]*([A-Z0-9\-]+)\<close>\<close>

definition amazon_invoice_number_pattern :: rx where
  "amazon_invoice_number_pattern =
     cat [lit ''Invoice'', ws0, lit ''Number'', colon_ws,
          Grp 1 (plus (Set False [CRange (ord CHR ''A'') (ord CHR ''Z''),
                                  CRange (ord CHR ''0'') (ord CHR ''9''), CLit (ord CHR ''-'')]))]"

definition amazon_invoice_number :: "tables \<Rightarrow> ustring \<Rightarrow> outcome" where
  "amazon_invoice_number U text =
     stripped_group U (re_search U ignorecase amazon_invoice_number_pattern text)"

text \<open>\<^verbatim>\<open>Order\s*Date[:\s]*([0-9./\-]+)\<close> and \<^verbatim>\<open>Invoice\s*Date[:\s]*([0-9./\-]+)\<close>\<close>

definition date_chars :: atom where
  "date_chars = Set False [CRange (ord CHR ''0'') (ord CHR ''9''), CLit (ord CHR ''.''),
                           CLit (ord CHR ''/''), CLit (ord CHR ''-'')]"

definition order_date_pattern :: rx where
  "order_date_pattern = cat [lit ''Order'', ws0, lit ''Date'', colon_ws, Grp 1 (plus date_chars)]"

definition invoice_date_pattern :: rx where
  "invoice_date_pattern = cat [lit ''Invoice'', ws0, lit ''Date'', colon_ws, Grp 1 (plus date_chars)]"

definition amazon_order_date :: "tables \<Rightarrow> ustring \<Rightarrow> outcome" where
  "amazon_order_date U text = date_group U (re_search U ignorecase order_date_pattern text)"

definition amazon_invoice_date :: "tables \<Rightarrow> ustring \<Rightarrow> outcome" where
  "amazon_invoice_date U text = date_group U (re_search U ignorecase invoice_date_pattern text)"

text \<open>The product name. \<^verbatim>\<open>^\s*1\s+\<close> marks the line of the first item;
  \<^verbatim>\<open>^(HSN|R|\d+%|IGST|Shipping)\<close> is the start of a new section of the table;
  \<^verbatim>\<open>R[\d,.]+ \d+ R[\d,.]+.*$\<close> is the price information removed from the name.\<close>

definition item_index :: rx where
  "item_index = cat [Bol, ws0, lit ''1'', ws1]"

definition section_start :: rx where
  "section_start =
     cat [Bol, Grp 1 (alts [lit ''HSN'', Rs, cat [plus digit, lit ''%''], lit ''IGST'',
                            lit ''Shipping''])]"

definition price_info :: rx where
  "price_info =
     cat [Rs, plus (Set False [CDigit, CLit (ord CHR '',''), CLit (ord CHR ''.'')]), lit '' '',
          plus digit, lit '' '', Rs,
          plus (Set False [CDigit, CLit (ord CHR '',''), CLit (ord CHR ''.'')]), any_greedy, Eol]"

definition aggregate_keywords :: "ustring list" where
  "aggregate_keywords = [u ''total'', u ''amount'', u ''tax'', u ''gst'']"

text \<open>
  The inner loop, \<^verbatim>\<open>while j < len(lines) and j < i + 5\<close>, with \<open>parts\<close> for
  \<^verbatim>\<open>product_parts\<close>.
\<close>

function product_scan :: "tables \<Rightarrow> ustring list \<Rightarrow> nat \<Rightarrow> nat \<Rightarrow> ustring list \<Rightarrow> ustring list" where
  "product_scan U lines i j parts =
     (if j < length lines \<and> j < i + 5 then
        (let next_line = strip U (lines ! j) in
         if next_line \<noteq> [] \<and> re_match U no_flags section_start next_line = None then
           (if \<not> list_ex (\<lambda>keyword. contains keyword (lower U next_line)) aggregate_keywords
            then product_scan U lines i (j + 1) (parts @ [next_line])
            else product_scan U lines i (j + 1) parts)
         else parts)
      else parts)"
  by pat_completeness auto
termination
  by (relation "measure (\<lambda>(U, lines, i, j, parts). length lines - j)") auto

declare product_scan.simps [simp del]

definition product_name_at :: "tables \<Rightarrow> ustring list \<Rightarrow> nat \<Rightarrow> ustring" where
  "product_name_at U lines i =
     (let current_line = lines ! i;
          product_line = re_sub U no_flags item_index [] current_line;
          product_parts = product_scan U lines i (i + 1) [product_line];
          full_product = join (u '' '') product_parts;
          full_product = re_sub U no_flags price_info [] full_product
      in take 200 (strip U full_product))"

text \<open>The outer loop, \<^verbatim>\<open>for i, line in enumerate(lines)\<close>, which ends at the first line
  that carries the item index; the last argument is \<^verbatim>\<open>lines[i:]\<close>.\<close>

fun product_loop :: "tables \<Rightarrow> ustring list \<Rightarrow> nat \<Rightarrow> ustring list \<Rightarrow> outcome" where
  "product_loop U lines i [] = None"
| "product_loop U lines i (line # rest) =
     (if re_search U no_flags item_index line \<noteq> None
      then Some (Inr (PStr (product_name_at U lines i)))
      else product_loop U lines (Suc i) rest)"

definition amazon_product_name :: "tables \<Rightarrow> ustring \<Rightarrow> outcome" where
  "amazon_product_name U text =
     (let lines = split_on 10 text in product_loop U lines 0 lines)"

text \<open>\<^verbatim>\<open>HSN[:\s]*([0-9]+)\<close>\<close>

definition amazon_hsn_pattern :: rx where
  "amazon_hsn_pattern =
     cat [lit ''HSN'', colon_ws, Grp 1 (plus (Set False [CRange (ord CHR ''0'') (ord CHR ''9'')]))]"

definition amazon_hsn_code :: "tables \<Rightarrow> ustring \<Rightarrow> outcome" where
  "amazon_hsn_code U text = stripped_group U (re_search U ignorecase amazon_hsn_pattern text)"

text \<open>\<^verbatim>\<open>R([\d,]+\.?\d*)\s+1\s+R\<close>, \<^verbatim>\<open>R[\d,]+\.?\d*\s+(\d+)\s+R\<close> and
  \<^verbatim>\<open>R[\d,]+\.?\d*\s+\d+\s+R([\d,]+\.?\d*)\<close>\<close>

definition unit_price_pattern :: rx where
  "unit_price_pattern = cat [Rs, Grp 1 amount, ws1, lit ''1'', ws1, Rs]"

definition qty_pattern :: rx where
  "qty_pattern = cat [Rs, amount, ws1, Grp 1 (plus digit), ws1, Rs]"

definition net_amount_pattern :: rx where
  "net_amount_pattern = cat [Rs, amount, ws1, plus digit, ws1, Rs, Grp 1 amount]"

definition amazon_unit_price :: "tables \<Rightarrow> ustring \<Rightarrow> outcome" where
  "amazon_unit_price U text = currency_group U (re_search U no_flags unit_price_pattern text)"

definition amazon_quantity :: "tables \<Rightarrow> ustring \<Rightarrow> outcome" where
  "amazon_quantity U text =
     (case re_search U no_flags qty_pattern text of
        None \<Rightarrow> None
      | Some m \<Rightarrow> Some (Inr (group m 1)))"

definition amazon_net_amount :: "tables \<Rightarrow> ustring \<Rightarrow> outcome" where
  "amazon_net_amount U text = currency_group U (re_search U no_flags net_amount_pattern text)"

text \<open>\<^verbatim>\<open>(\d+)%\s+IGST\<close>, \<^verbatim>\<open>IGST\s+R([\d,]+\.?\d*)\<close> and
  \<^verbatim>\<open>IGST\s+R[\d,]+\.?\d*\s+R([\d,]+\.?\d*)\<close>\<close>

definition tax_rate_pattern :: rx where
  "tax_rate_pattern = cat [Grp 1 (plus digit), lit ''%'', ws1, lit ''IGST'']"

definition tax_amount_pattern :: rx where
  "tax_amount_pattern = cat [lit ''IGST'', ws1, Rs, Grp 1 amount]"

definition total_amount_pattern :: rx where
  "total_amount_pattern = cat [lit ''IGST'', ws1, Rs, amount, ws1, Rs, Grp 1 amount]"

definition amazon_tax_rate :: "tables \<Rightarrow> ustring \<Rightarrow> outcome" where
  "amazon_tax_rate U text =
     (case re_search U no_flags tax_rate_pattern text of
        None \<Rightarrow> None
      | Some m \<Rightarrow> Some (Inr (PStr (py_str (group m 1) @ u ''%''))))"

definition amazon_tax_amount :: "tables \<Rightarrow> ustring \<Rightarrow> outcome" where
  "amazon_tax_amount U text = currency_group U (re_search U no_flags tax_amount_pattern text)"

definition amazon_total_amount :: "tables \<Rightarrow> ustring \<Rightarrow> outcome" where
  "amazon_total_amount U text = currency_group U (re_search U no_flags total_amount_pattern text)"

text \<open>\<^verbatim>\<open>Shipping\s+Charges\s+R([\d,]+\.?\d*)\<close>\<close>

definition amazon_shipping_pattern :: rx where
  "amazon_shipping_pattern = cat [lit ''Shipping'', ws1, lit ''Charges'', ws1, Rs, Grp 1 amount]"

definition amazon_shipping_charges :: "tables \<Rightarrow> ustring \<Rightarrow> outcome" where
  "amazon_shipping_charges U text =
     currency_group U (re_search U ignorecase amazon_shipping_pattern text)"

text \<open>\<^verbatim>\<open>TOTAL[:\s]*R([\d,]+\.?\d*)\<close>, \<^verbatim>\<open>Invoice\s*Value[:\s]*R?([\d,]+\.?\d*)\<close>,
  \<^verbatim>\<open>Grand\s*Total[:\s]*R([\d,]+\.?\d*)\<close>\<close>

definition grand_total_patterns :: "rx list" where
  "grand_total_patterns =
     [cat [lit ''TOTAL'', colon_ws, Rs, Grp 1 amount],
      cat [lit ''Invoice'', ws0, lit ''Value'', colon_ws, opt1 (Lit rupee), Grp 1 amount],
      cat [lit ''Grand'', ws0, lit ''Total'', colon_ws, Rs, Grp 1 amount]]"

definition amazon_grand_total :: "tables \<Rightarrow> ustring \<Rightarrow> outcome" where
  "amazon_grand_total U text =
     currency_group U (first_search U ignorecase grand_total_patterns text)"

text \<open>\<^verbatim>\<open>Mode\s*of\s*Payment[:\s]*([^\n]+)\<close>\<close>

definition payment_pattern :: rx where
  "payment_pattern =
     cat [lit ''Mode'', ws0, lit ''of'', ws0, lit ''Payment'', colon_ws, Grp 1 line_rest]"

definition amazon_payment_mode :: "tables \<Rightarrow> ustring \<Rightarrow> outcome" where
  "amazon_payment_mode U text = stripped_group U (re_search U ignorecase payment_pattern text)"

text \<open>\<^verbatim>\<open>Sold\s*By[:\s]*([^\n*]+)\<close>, then \<^verbatim>\<open>\*.*$\<close> is removed from the name.\<close>

definition amazon_seller_pattern :: rx where
  "amazon_seller_pattern =
     cat [lit ''Sold'', ws0, lit ''By'', colon_ws,
          Grp 1 (plus (Set True [CLit 10, CLit (ord CHR ''*'')]))]"

definition star_tail :: rx where
  "star_tail = cat [lit ''*'', any_greedy, Eol]"

definition amazon_seller_name :: "tables \<Rightarrow> ustring \<Rightarrow> outcome" where
  "amazon_seller_name U text =
     (case re_search U ignorecase amazon_seller_pattern text of
        None \<Rightarrow> None
      | Some m \<Rightarrow>
          Some (case py_strip U (group m 1) of
                  Inl e \<Rightarrow> Inl e
                | Inr seller_name \<Rightarrow>
                    (let seller_name = strip U (re_sub U no_flags star_tail [] seller_name)
                     in Inr (PStr (take 100 seller_name)))))"

text \<open>\<^verbatim>\<open>GST\s*Registration\s*No[:\s]*([A-Z0-9]+)\<close>\<close>

definition amazon_gst_pattern :: rx where
  "amazon_gst_pattern =
     cat [lit ''GST'', ws0, lit ''Registration'', ws0, lit ''No'', colon_ws,
          Grp 1 (plus upper_digit)]"

definition amazon_seller_gst :: "tables \<Rightarrow> ustring \<Rightarrow> outcome" where
  "amazon_seller_gst U text = stripped_group U (re_search U ignorecase amazon_gst_pattern text)"

text \<open>\<^verbatim>\<open>Billing\s*Address[:\s]*([^:]+?)(?=Shipping\s*Address|State/UT|$)\<close> and
  \<^verbatim>\<open>Shipping\s*Address[:\s]*([^:]+?)(?=Place\s*of|State/UT|$)\<close>\<close>

definition amazon_billing_start :: "rx list" where
  "amazon_billing_start = [lit ''Billing'', ws0, lit ''Address'', colon_ws]"

definition amazon_billing_stop :: rx where
  "amazon_billing_stop = alts [cat [lit ''Shipping'', ws0, lit ''Address''], lit ''State/UT'', Eol]"

definition amazon_billing_pattern :: rx where
  "amazon_billing_pattern = address_pattern amazon_billing_start amazon_billing_stop"

definition amazon_shipping_start :: "rx list" where
  "amazon_shipping_start = [lit ''Shipping'', ws0, lit ''Address'', colon_ws]"

definition amazon_shipping_stop :: rx where
  "amazon_shipping_stop = alts [cat [lit ''Place'', ws0, lit ''of''], lit ''State/UT'', Eol]"

definition amazon_shipping_address_pattern :: rx where
  "amazon_shipping_address_pattern = address_pattern amazon_shipping_start amazon_shipping_stop"

definition amazon_billing_address :: "tables \<Rightarrow> ustring \<Rightarrow> outcome" where
  "amazon_billing_address U text =
     address_group U (re_search U ignorecase_dotall amazon_billing_pattern text)"

definition amazon_shipping_address :: "tables \<Rightarrow> ustring \<Rightarrow> outcome" where
  "amazon_shipping_address U text =
     address_group U (re_search U ignorecase_dotall amazon_shipping_address_pattern text)"

text \<open>The blocks of the \<^verbatim>\<open>try\<close> body, in the order of the source.\<close>

definition amazon_rules :: "tables \<Rightarrow> ustring \<Rightarrow> (string \<times> outcome) list" where
  "amazon_rules U text =
     [(''Order Number'', amazon_order_number U text),
      (''Invoice Number'', amazon_invoice_number U text),
      (''Order Date'', amazon_order_date U text),
      (''Invoice Date'', amazon_invoice_date U text),
      (''Product Name'', amazon_product_name U text),
      (''HSN Code'', amazon_hsn_code U text),
      (''Unit Price'', amazon_unit_price U text),
      (''Quantity'', amazon_quantity U text),
      (''Net Amount'', amazon_net_amount U text),
      (''Tax Rate'', amazon_tax_rate U text),
      (''Tax Amount'', amazon_tax_amount U text),
      (''Total Amount'', amazon_total_amount U text),
      (''Shipping Charges'', amazon_shipping_charges U text),
      (''Grand Total'', amazon_grand_total U text),
      (''Payment Mode'', amazon_payment_mode U text),
      (''Seller Name'', amazon_seller_name U text),
      (''Seller GST'', amazon_seller_gst U text),
      (''Billing Address'', amazon_billing_address U text),
      (''Shipping Address'', amazon_shipping_address U text)]"

definition extract_amazon_invoice :: "tables \<Rightarrow> ustring \<Rightarrow> ustring \<Rightarrow> data" where
  "extract_amazon_invoice U text filename =
     fst (run_rules (amazon_rules U text) (amazon_defaults filename))"

subsection \<open>The Flipkart rule set\<close>

definition flipkart_defaults :: "ustring \<Rightarrow> data" where
  "flipkart_defaults filename =
     [''File Name'' \<mapsto> PStr filename,
      ''Invoice Source'' \<mapsto> PStr (u ''Flipkart''),
      ''Order Number'' \<mapsto> PStr (u ''N/A''),
      ''Invoice Number'' \<mapsto> PStr (u ''N/A''),
      ''Order Date'' \<mapsto> PStr (u ''N/A''),
      ''Invoice Date'' \<mapsto> PStr (u ''N/A''),
      ''Product Name'' \<mapsto> PStr (u ''N/A''),
      ''HSN Code'' \<mapsto> PStr (u ''N/A''),
      ''Quantity'' \<mapsto> PStr (u ''1''),
      ''Unit Price'' \<mapsto> PStr (u ''0.00''),
      ''Net Amount'' \<mapsto> PStr (u ''0.00''),
      ''Tax Rate'' \<mapsto> PStr (u ''N/A''),
      ''Tax Amount'' \<mapsto> PStr (u ''0.00''),
      ''Total Amount'' \<mapsto> PStr (u ''0.00''),
      ''Shipping Charges'' \<mapsto> PStr (u ''0.00''),
      ''Grand Total'' \<mapsto> PStr (u ''0.00''),
      ''Payment Mode'' \<mapsto> PStr (u ''N/A''),
      ''Seller Name'' \<mapsto> PStr (u ''N/A''),
      ''Seller GST'' \<mapsto> PStr (u ''N/A''),
      ''Billing Address'' \<mapsto> PStr (u ''N/A''),
      ''Shipping Address'' \<mapsto> PStr (u ''N/A'')]"

text \<open>\<^verbatim>\<open>Order\s*(?:ID|Number)[:\s]*([A-Z0-9]+)\<close>\<close>

definition flipkart_order_pattern :: rx where
  "flipkart_order_pattern =
     cat [lit ''Order'', ws0, Alt (lit ''ID'') (lit ''Number''), colon_ws, Grp 1 (plus upper_digit)]"

definition flipkart_order_number :: "tables \<Rightarrow> ustring \<Rightarrow> outcome" where
  "flipkart_order_number U text =
     stripped_group U (re_search U ignorecase flipkart_order_pattern text)"

text \<open>\<^verbatim>\<open>Invoice\s*(?:Number|No)[:\s#]*([A-Z0-9]+)\<close> and \<^verbatim>\<open>#\s*([A-Z0-9]{10,})\<close>\<close>

definition flipkart_invoice_patterns :: "rx list" where
  "flipkart_invoice_patterns =
     [cat [lit ''Invoice'', ws0, Alt (lit ''Number'') (lit ''No''),
           star (Set False [CLit (ord CHR '':''), CSpace, CLit (ord CHR ''#'')]),
           Grp 1 (plus upper_digit)],
      cat [lit ''#'', ws0, Grp 1 (Rep upper_digit 10 None True)]]"

definition flipkart_invoice_number :: "tables \<Rightarrow> ustring \<Rightarrow> outcome" where
  "flipkart_invoice_number U text =
     stripped_group U (first_search U ignorecase flipkart_invoice_patterns text)"

text \<open>\<^verbatim>\<open>Order\s*Date[:\s]*([0-9.\-/]+)\<close> and \<^verbatim>\<open>Invoice\s*Date[:\s]*([0-9.\-/]+)\<close>\<close>

definition flipkart_date_chars :: atom where
  "flipkart_date_chars = Set False [CRange (ord CHR ''0'') (ord CHR ''9''), CLit (ord CHR ''.''),
                                    CLit (ord CHR ''-''), CLit (ord CHR ''/'')]"

definition flipkart_order_date_pattern :: rx where
  "flipkart_order_date_pattern =
     cat [lit ''Order'', ws0, lit ''Date'', colon_ws, Grp 1 (plus flipkart_date_chars)]"

definition flipkart_invoice_date_pattern :: rx where
  "flipkart_invoice_date_pattern =
     cat [lit ''Invoice'', ws0, lit ''Date'', colon_ws, Grp 1 (plus flipkart_date_chars)]"

definition flipkart_order_date :: "tables \<Rightarrow> ustring \<Rightarrow> outcome" where
  "flipkart_order_date U text =
     date_group U (re_search U ignorecase flipkart_order_date_pattern text)"

definition flipkart_invoice_date :: "tables \<Rightarrow> ustring \<Rightarrow> outcome" where
  "flipkart_invoice_date U text =
     date_group U (re_search U ignorecase flipkart_invoice_date_pattern text)"

text \<open>The product name: \<^verbatim>\<open>Product\s*Description\s+Qty.*?\n([^\n]+)\<close>,
  \<^verbatim>\<open>Description\s+Qty.*?\n([^\n]+)\<close>, \<^verbatim>\<open>([A-Za-z].*?)\s+HSN[:\s]*\d+\<close> and
  \<^verbatim>\<open>Ordered\s*Through.*?\n([^\n]+)\<close>; then \<^verbatim>\<open>\d+\s+[\d,]+\.?\d*.*$\<close> and \<^verbatim>\<open>^\d+\s+\<close>
  are removed from the name, which is kept only when longer than 10 characters.\<close>

definition flipkart_product_patterns :: "rx list" where
  "flipkart_product_patterns =
     [cat [lit ''Product'', ws0, lit ''Description'', ws1, lit ''Qty'', any_lazy, At (Lit 10),
           Grp 1 line_rest],
      cat [lit ''Description'', ws1, lit ''Qty'', any_lazy, At (Lit 10), Grp 1 line_rest],
      cat [Grp 1 (cat [At (Set False [CRange (ord CHR ''A'') (ord CHR ''Z''),
                                      CRange (ord CHR ''a'') (ord CHR ''z'')]), any_lazy]),
           ws1, lit ''HSN'', colon_ws, plus digit],
      cat [lit ''Ordered'', ws0, lit ''Through'', any_lazy, At (Lit 10), Grp 1 line_rest]]"

definition trailing_numbers :: rx where
  "trailing_numbers = cat [plus digit, ws1, amount, any_greedy, Eol]"

definition leading_number :: rx where
  "leading_number = cat [Bol, plus digit, ws1]"

fun flipkart_product_loop :: "tables \<Rightarrow> rx list \<Rightarrow> ustring \<Rightarrow> outcome" where
  "flipkart_product_loop U [] text = None"
| "flipkart_product_loop U (pattern # patterns) text =
     (case re_search U ignorecase_dotall pattern text of
        None \<Rightarrow> flipkart_product_loop U patterns text
      | Some m \<Rightarrow>
          (case py_strip U (group m 1) of
             Inl e \<Rightarrow> Some (Inl e)
           | Inr product_name \<Rightarrow>
               (let product_name = re_sub U no_flags trailing_numbers [] product_name;
                    product_name = re_sub U no_flags leading_number [] product_name
                in if length product_name > 10
                   then Some (Inr (PStr (take 200 product_name)))
                   else flipkart_product_loop U patterns text)))"

definition flipkart_product_name :: "tables \<Rightarrow> ustring \<Rightarrow> outcome" where
  "flipkart_product_name U text = flipkart_product_loop U flipkart_product_patterns text"

text \<open>\<^verbatim>\<open>HSN[:\s]*(\d+)\<close> and \<^verbatim>\<open>Qty\s+(\d+)\<close>\<close>

definition flipkart_hsn_pattern :: rx where
  "flipkart_hsn_pattern = cat [lit ''HSN'', colon_ws, Grp 1 (plus digit)]"

definition flipkart_qty_pattern :: rx where
  "flipkart_qty_pattern = cat [lit ''Qty'', ws1, Grp 1 (plus digit)]"

definition flipkart_hsn_code :: "tables \<Rightarrow> ustring \<Rightarrow> outcome" where
  "flipkart_hsn_code U text = stripped_group U (re_search U ignorecase flipkart_hsn_pattern text)"

definition flipkart_quantity :: "tables \<Rightarrow> ustring \<Rightarrow> outcome" where
  "flipkart_quantity U text =
     (case re_search U ignorecase flipkart_qty_pattern text of
        None \<Rightarrow> None
      | Some m \<Rightarrow> Some (Inr (group m 1)))"

text \<open>\<^verbatim>\<open>Gross\s*Amount[^R]*R?\s*([\d,]+\.?\d*)\<close> and
  \<^verbatim>\<open>Taxable\s*[Vv]alue[^R]*R?\s*([\d,]+\.?\d*)\<close>\<close>

definition gross_amount_pattern :: rx where
  "gross_amount_pattern = cat [lit ''Gross'', ws0, lit ''Amount'', upto_rupee, Grp 1 amount]"

definition taxable_value_pattern :: rx where
  "taxable_value_pattern =
     cat [lit ''Taxable'', ws0, At (Set False [CLit (ord CHR ''V''), CLit (ord CHR ''v'')]),
          lit ''alue'', upto_rupee, Grp 1 amount]"

definition flipkart_unit_price :: "tables \<Rightarrow> ustring \<Rightarrow> outcome" where
  "flipkart_unit_price U text = currency_group U (re_search U ignorecase gross_amount_pattern text)"

definition flipkart_net_amount :: "tables \<Rightarrow> ustring \<Rightarrow> outcome" where
  "flipkart_net_amount U text = currency_group U (re_search U ignorecase taxable_value_pattern text)"

text \<open>\<^verbatim>\<open>(\d+\.?\d*)%\s*IGST\<close> and \<^verbatim>\<open>IGST[^R]*R?\s*([\d,]+\.?\d*)\<close>\<close>

definition flipkart_tax_rate_pattern :: rx where
  "flipkart_tax_rate_pattern =
     cat [Grp 1 (cat [plus digit, opt1 (Lit (ord CHR ''.'')), star digit]), lit ''%'', ws0,
          lit ''IGST'']"

definition flipkart_tax_amount_pattern :: rx where
  "flipkart_tax_amount_pattern = cat [lit ''IGST'', upto_rupee, Grp 1 amount]"

definition flipkart_tax_rate :: "tables \<Rightarrow> ustring \<Rightarrow> outcome" where
  "flipkart_tax_rate U text =
     (case re_search U no_flags flipkart_tax_rate_pattern text of
        None \<Rightarrow> None
      | Some m \<Rightarrow> Some (Inr (PStr (py_str (group m 1) @ u ''%''))))"

definition flipkart_tax_amount :: "tables \<Rightarrow> ustring \<Rightarrow> outcome" where
  "flipkart_tax_amount U text =
     currency_group U (re_search U ignorecase flipkart_tax_amount_pattern text)"

text \<open>\<^verbatim>\<open>Total[^R]*R?\s*([\d,]+\.?\d*)\<close> and \<^verbatim>\<open>Grand\s*Total[^R]*R?\s*([\d,]+\.?\d*)\<close>\<close>

definition flipkart_total_patterns :: "rx list" where
  "flipkart_total_patterns =
     [cat [lit ''Total'', upto_rupee, Grp 1 amount],
      cat [lit ''Grand'', ws0, lit ''Total'', upto_rupee, Grp 1 amount]]"

definition flipkart_grand_total :: "tables \<Rightarrow> ustring \<Rightarrow> outcome" where
  "flipkart_grand_total U text =
     currency_group U (first_search U ignorecase flipkart_total_patterns text)"

text \<open>\<^verbatim>\<open>Shipping\s*(?:and\s*)?(?:Handling\s*)?Charges[^R]*R?\s*([\d,]+\.?\d*)\<close> and
  \<^verbatim>\<open>Delivery\s*Charges[^R]*R?\s*([\d,]+\.?\d*)\<close>; a match whose group is \<^verbatim>\<open>0.00\<close> is
  passed over.\<close>

definition flipkart_shipping_patterns :: "rx list" where
  "flipkart_shipping_patterns =
     [cat [lit ''Shipping'', ws0, Opt (cat [lit ''and'', ws0]), Opt (cat [lit ''Handling'', ws0]),
           lit ''Charges'', upto_rupee, Grp 1 amount],
      cat [lit ''Delivery'', ws0, lit ''Charges'', upto_rupee, Grp 1 amount]]"

fun flipkart_shipping_loop :: "tables \<Rightarrow> rx list \<Rightarrow> ustring \<Rightarrow> outcome" where
  "flipkart_shipping_loop U [] text = None"
| "flipkart_shipping_loop U (pattern # patterns) text =
     (case re_search U ignorecase pattern text of
        None \<Rightarrow> flipkart_shipping_loop U patterns text
      | Some m \<Rightarrow>
          if group m 1 \<noteq> PStr (u ''0.00'')
          then Some (Inr (PStr (clean_currency U (group m 1))))
          else flipkart_shipping_loop U patterns text)"

definition flipkart_shipping_charges :: "tables \<Rightarrow> ustring \<Rightarrow> outcome" where
  "flipkart_shipping_charges U text = flipkart_shipping_loop U flipkart_shipping_patterns text"

text \<open>\<^verbatim>\<open>Sold\s*By[:\s]*([^,\n]+)\<close>\<close>

definition flipkart_seller_pattern :: rx where
  "flipkart_seller_pattern =
     cat [lit ''Sold'', ws0, lit ''By'', colon_ws,
          Grp 1 (plus (Set True [CLit (ord CHR '',''), CLit 10]))]"

definition flipkart_seller_name :: "tables \<Rightarrow> ustring \<Rightarrow> outcome" where
  "flipkart_seller_name U text =
     (case re_search U ignorecase flipkart_seller_pattern text of
        None \<Rightarrow> None
      | Some m \<Rightarrow>
          Some (case py_strip U (group m 1) of
                  Inl e \<Rightarrow> Inl e
                | Inr s \<Rightarrow> Inr (PStr (take 100 s))))"

text \<open>\<^verbatim>\<open>GSTIN[:\s-]*([A-Z0-9]{15})\<close> and \<^verbatim>\<open>GST[:\s]*([A-Z0-9]{15})\<close>\<close>

definition flipkart_gst_patterns :: "rx list" where
  "flipkart_gst_patterns =
     [cat [lit ''GSTIN'', star (Set False [CLit (ord CHR '':''), CSpace, CLit (ord CHR ''-'')]),
           Grp 1 (exactly 15 upper_digit)],
      cat [lit ''GST'', colon_ws, Grp 1 (exactly 15 upper_digit)]]"

definition flipkart_seller_gst :: "tables \<Rightarrow> ustring \<Rightarrow> outcome" where
  "flipkart_seller_gst U text =
     stripped_group U (first_search U ignorecase flipkart_gst_patterns text)"

text \<open>\<^verbatim>\<open>Bill\s*To\s*([^:]+?)(?=Ship\s*To|Order\s*ID|$)\<close> and
  \<^verbatim>\<open>Ship\s*To\s*([^:]+?)(?=Bill\s*To|Order\s*ID|$)\<close>\<close>

definition flipkart_billing_start :: "rx list" where
  "flipkart_billing_start = [lit ''Bill'', ws0, lit ''To'', ws0]"

definition flipkart_billing_stop :: rx where
  "flipkart_billing_stop =
     alts [cat [lit ''Ship'', ws0, lit ''To''], cat [lit ''Order'', ws0, lit ''ID''], Eol]"

definition flipkart_billing_pattern :: rx where
  "flipkart_billing_pattern = address_pattern flipkart_billing_start flipkart_billing_stop"

definition flipkart_shipping_start :: "rx list" where
  "flipkart_shipping_start = [lit ''Ship'', ws0, lit ''To'', ws0]"

definition flipkart_shipping_stop :: rx where
  "flipkart_shipping_stop =
     alts [cat [lit ''Bill'', ws0, lit ''To''], cat [lit ''Order'', ws0, lit ''ID''], Eol]"

definition flipkart_shipping_address_pattern :: rx where
  "flipkart_shipping_address_pattern =
     address_pattern flipkart_shipping_start flipkart_shipping_stop"

definition flipkart_billing_address :: "tables \<Rightarrow> ustring \<Rightarrow> outcome" where
  "flipkart_billing_address U text =
     address_group U (re_search U ignorecase_dotall flipkart_billing_pattern text)"

definition flipkart_shipping_address :: "tables \<Rightarrow> ustring \<Rightarrow> outcome" where
  "flipkart_shipping_address U text =
     address_group U (re_search U ignorecase_dotall flipkart_shipping_address_pattern text)"

definition flipkart_rules :: "tables \<Rightarrow> ustring \<Rightarrow> (string \<times> outcome) list" where
  "flipkart_rules U text =
     [(''Order Number'', flipkart_order_number U text),
      (''Invoice Number'', flipkart_invoice_number U text),
      (''Order Date'', flipkart_order_date U text),
      (''Invoice Date'', flipkart_invoice_date U text),
      (''Product Name'', flipkart_product_name U text),
      (''HSN Code'', flipkart_hsn_code U text),
      (''Quantity'', flipkart_quantity U text),
      (''Unit Price'', flipkart_unit_price U text),
      (''Net Amount'', flipkart_net_amount U text),
      (''Tax Rate'', flipkart_tax_rate U text),
      (''Tax Amount'', flipkart_tax_amount U text),
      (''Grand Total'', flipkart_grand_total U text),
      (''Shipping Charges'', flipkart_shipping_charges U text),
      (''Seller Name'', flipkart_seller_name U text),
      (''Seller GST'', flipkart_seller_gst U text),
      (''Billing Address'', flipkart_billing_address U text),
      (''Shipping Address'', flipkart_shipping_address U text)]"

definition extract_flipkart_invoice :: "tables \<Rightarrow> ustring \<Rightarrow> ustring \<Rightarrow> data" where
  "extract_flipkart_invoice U text filename =
     fst (run_rules (flipkart_rules U text) (flipkart_defaults filename))"

subsection \<open>Notions used to state the properties of the extractors\<close>

text \<open>The fixed schema, in the column order of the output.\<close>

definition field_names :: "string list" where
  "field_names =
     [''File Name'', ''Invoice Source'', ''Order Number'', ''Invoice Number'', ''Order Date'',
      ''Invoice Date'', ''Product Name'', ''HSN Code'', ''Quantity'', ''Unit Price'',
      ''Net Amount'', ''Tax Rate'', ''Tax Amount'', ''Total Amount'', ''Shipping Charges'',
      ''Grand Total'', ''Payment Mode'', ''Seller Name'', ''Seller GST'', ''Billing Address'',
      ''Shipping Address'']"

definition is_str :: "pyval \<Rightarrow> bool" where
  "is_str v = (case v of PNone \<Rightarrow> False | PStr s \<Rightarrow> True)"

text \<open>A block raises; the dictionary after the blocks that store, none raising.\<close>

definition raises :: "outcome \<Rightarrow> bool" where
  "raises r = (case r of Some (Inl e) \<Rightarrow> True | _ \<Rightarrow> False)"

fun apply_rules :: "(string \<times> outcome) list \<Rightarrow> data \<Rightarrow> data" where
  "apply_rules [] d = d"
| "apply_rules ((key, r) # rs) d =
     apply_rules rs (case r of Some (Inr v) \<Rightarrow> d(key \<mapsto> v) | _ \<Rightarrow> d)"

text \<open>The blocks that come before the first one that raises.\<close>

definition before_raise :: "(string \<times> outcome) list \<Rightarrow> (string \<times> outcome) list" where
  "before_raise rs = takeWhile (\<lambda>kr. \<not> raises (snd kr)) rs"

text \<open>The fields whose default is \<^verbatim>\<open>0.00\<close>; the default of \<^verbatim>\<open>Quantity\<close> is \<^verbatim>\<open>1\<close>, and
  that of every other field with a block is \<^verbatim>\<open>N/A\<close>.\<close>

definition amount_fields :: "string list" where
  "amount_fields =
     [''Unit Price'', ''Net Amount'', ''Tax Amount'', ''Total Amount'', ''Shipping Charges'',
      ''Grand Total'']"

definition default_value :: "string \<Rightarrow> ustring" where
  "default_value k =
     (if k = ''Quantity'' then u ''1''
      else if k \<in> set amount_fields then u ''0.00''
      else u ''N/A'')"

text \<open>The text of the scenario of the specification: two lines with the order number and
  the invoice date, then a line with the prices and the tax.\<close>

definition scenario_text :: ustring where
  "scenario_text =
     u ''Order Number: 402-1234567-1234567'' @ [10] @ u ''Invoice Date: 01.02.2023'' @ [10]
     @ u ''...'' @ [rupee] @ u ''199.00 1 '' @ [rupee] @ u ''199.00...5% IGST '' @ [rupee]
     @ u ''9.95''"

text \<open>
  The continuation lines of a product name, stated without the loop: of the four lines
  that follow line \<open>i\<close>, trimmed, those that come before the first one that is empty or
  starts a new section of the table, without those that contain an aggregate keyword.
\<close>

definition has_keyword :: "tables \<Rightarrow> ustring \<Rightarrow> bool" where
  "has_keyword U l = list_ex (\<lambda>keyword. contains keyword (lower U l)) aggregate_keywords"

definition ends_scan :: "tables \<Rightarrow> ustring \<Rightarrow> bool" where
  "ends_scan U l = (l = [] \<or> re_match U no_flags section_start l \<noteq> None)"

definition continuation_lines :: "tables \<Rightarrow> ustring list \<Rightarrow> nat \<Rightarrow> ustring list" where
  "continuation_lines U lines i =
     filter (\<lambda>l. \<not> has_keyword U l)
       (takeWhile (\<lambda>l. \<not> ends_scan U l) (map (strip U) (take 4 (drop (Suc i) lines))))"

text \<open>The reading of the specification: appending stops at the first line that starts a
  new section or contains an aggregate keyword.\<close>

definition spec_continuation_lines :: "tables \<Rightarrow> ustring list \<Rightarrow> nat \<Rightarrow> ustring list" where
  "spec_continuation_lines U lines i =
     takeWhile (\<lambda>l. re_match U no_flags section_start l = None \<and> \<not> has_keyword U l)
       (map (strip U) (take 4 (drop (Suc i) lines)))"

text \<open>An item line followed by a line with an aggregate keyword, a plain line, the HSN
  line and one more line.\<close>

definition item_text :: ustring where
  "item_text =
     u ''1 Phone Case'' @ [10] @ u ''Total pack of 2'' @ [10] @ u ''Blue colour'' @ [10]
     @ u ''HSN 8517'' @ [10] @ u ''Made in India''"

text \<open>
  The captured span of an address, stated without the matcher's search order. A stop
  marker stands at position \<open>p\<close> of the text when the stop pattern matches there. A span
  that begins at position \<open>g\<close> is lazy when it is not empty, contains no colon, has a stop
  marker right after it, and no stop marker stands at any earlier position after its
  first character. It is the span of an address when it begins where some match of the
  start marker, begun anywhere in the text, ends.
\<close>

definition stops_at :: "tables \<Rightarrow> flags \<Rightarrow> rx \<Rightarrow> ustring \<Rightarrow> nat \<Rightarrow> bool" where
  "stops_at U fl stop text p = (rmatch U fl stop (p, drop p text, []) \<noteq> [])"

definition span_from :: "tables \<Rightarrow> flags \<Rightarrow> rx \<Rightarrow> ustring \<Rightarrow> nat \<Rightarrow> ustring \<Rightarrow> bool" where
  "span_from U fl stop text g span =
     (span \<noteq> [] \<and> span = take (length span) (drop g text)
      \<and> list_all (atom_ok U fl (Set True [CLit (ord CHR '':'')])) span
      \<and> stops_at U fl stop text (g + length span)
      \<and> list_all (\<lambda>n. \<not> stops_at U fl stop text (g + n)) [1..<length span])"

definition lazy_span :: "tables \<Rightarrow> flags \<Rightarrow> rx list \<Rightarrow> rx \<Rightarrow> ustring \<Rightarrow> ustring \<Rightarrow> bool" where
  "lazy_span U fl start stop text span =
     list_ex (\<lambda>b. list_ex (\<lambda>st. span_from U fl stop text (fst st) span)
                          (rmatch U fl (cat start) (b, drop b text, [])))
             [0..<Suc (length text)]"

text \<open>What an address block stores: nothing when the pattern does not match; otherwise
  the lazy span, trimmed, its runs of white space made single spaces, cut to 150
  characters.\<close>

definition captured_address :: "tables \<Rightarrow> rx list \<Rightarrow> rx \<Rightarrow> ustring \<Rightarrow> outcome \<Rightarrow> bool" where
  "captured_address U start stop text r =
     (case re_search U ignorecase_dotall (address_pattern start stop) text of
        None \<Rightarrow> r = None
      | Some m \<Rightarrow>
          (case group m 1 of
             PNone \<Rightarrow> False
           | PStr span \<Rightarrow>
               lazy_span U ignorecase_dotall start stop text span
               \<and> r = Some (Inr (PStr (take 150
                          (re_sub U no_flags (plus space) (u '' '') (strip U span)))))))"

text \<open>The stop markers as the specification lists them, one set for all four fields.\<close>

definition spec_address_stop :: rx where
  "spec_address_stop =
     alts [cat [lit ''Shipping'', ws0, lit ''Address''], cat [lit ''Ship'', ws0, lit ''To''],
           lit ''State/UT'', cat [lit ''Place'', ws0, lit ''of''],
           cat [lit ''Order'', ws0, lit ''ID''], Eol]"

text \<open>A block is sound when it does not raise and stores, if anything, a string.\<close>

definition sound :: "outcome \<Rightarrow> bool" where
  "sound r = (case r of None \<Rightarrow> True | Some (Inl e) \<Rightarrow> False | Some (Inr v) \<Rightarrow> is_str v)"

text \<open>A group that takes part in every match of a pattern.\<close>

fun binds :: "nat \<Rightarrow> rx \<Rightarrow> bool" where
  "binds i (Grp j r) = (i = j \<or> binds i r)"
| "binds i (Seq a b) = (binds i a \<or> binds i b)"
| "binds i (Alt a b) = (binds i a \<and> binds i b)"
| "binds i r = False"

text \<open>The shape \<^verbatim>\<open>^\d*\.?\d*$\<close> that the specification gives for a cleaned amount.\<close>

definition currency_shape :: rx where
  "currency_shape = cat [Bol, star digit, opt1 (Lit (ord CHR ''.'')), star digit, Eol]"

section \<open>Properties of the string functions and of the matcher\<close>

lemma sub_go_chars:
  assumes "\<And>pos x xs. match_at U fl r pos (x # xs) = None \<Longrightarrow> P x"
    and ne: "\<And>pos x xs b e caps. match_at U fl r pos (x # xs) = Some (b, e, caps) \<Longrightarrow> e \<noteq> pos"
  shows "c \<in> set (sub_go U fl r repl k pos s) \<Longrightarrow> c \<in> set repl \<or> P c"
proof (induction s arbitrary: k pos)
  case Nil
  then show ?case by (auto split: option.splits if_splits)
next
  case (Cons x xs)
  show ?case
  proof (cases k)
    case 0
    show ?thesis
    proof (cases "match_at U fl r pos (x # xs)")
      case None
      with Cons 0 assms(1)[OF None] show ?thesis by auto
    next
      case (Some m)
      obtain b e caps where m: "m = (b, e, caps)" by (cases m)
      with Cons 0 Some ne[of pos x xs b e caps] show ?thesis by (auto split: if_splits)
    qed
  next
    case (Suc k')
    with Cons show ?thesis by auto
  qed
qed

lemma match_at_plus_None:
  "match_at U fl (plus a) pos (x # xs) = None \<Longrightarrow> \<not> atom_ok U fl a x"
  by (auto simp: match_at_def plus_def Let_def split: list.splits)

lemma rmatch_Rep_set:
  "st' \<in> set (rmatch U fl (Rep a lo hi g) (pos, rest, caps)) \<longleftrightarrow>
     (\<exists>k. st' = (pos + k, drop k rest, caps) \<and> lo \<le> k
        \<and> k \<le> length (takeWhile (atom_ok U fl a) rest)
        \<and> (case hi of None \<Rightarrow> True | Some h \<Rightarrow> k \<le> h))"
  by (cases hi) (auto simp: Let_def)

lemma match_at_SomeD:
  "match_at U fl r pos s = Some (b, e, caps) \<Longrightarrow>
     b = pos \<and> (\<exists>rest'. (e, rest', caps) \<in> set (rmatch U fl r (pos, s, [])))"
  by (auto simp: match_at_def split: list.splits)

lemma match_at_plus_Some:
  "match_at U fl (plus a) pos s = Some (b, e, caps) \<Longrightarrow> e \<noteq> pos"
  unfolding plus_def by (drule match_at_SomeD) (auto simp: rmatch_Rep_set simp del: rmatch.simps)

lemma match_at_At_Some:
  "match_at U fl (At a) pos s = Some (b, e, caps) \<Longrightarrow> e \<noteq> pos"
  by (auto simp: match_at_def split: list.splits if_splits)

lemma match_at_At_None:
  "match_at U fl (At a) pos (x # xs) = None \<Longrightarrow> \<not> atom_ok U fl a x"
  by (auto simp: match_at_def split: list.splits if_splits)

lemma replace_go_absent:
  "old \<noteq> [] \<Longrightarrow> hd old \<notin> set s \<Longrightarrow> replace_go old new 0 s = s"
  by (induction s) (auto simp: prefix_def neq_Nil_conv)

lemma split_on_absent: "c \<notin> set s \<Longrightarrow> split_on c s = [s]"
  by (induction s) auto

lemma set_strip: "set (strip U s) \<subseteq> set s"
  unfolding strip_def
  by (metis set_dropWhileD set_rev subsetI)

lemma strip_last: "strip U s \<noteq> [] \<Longrightarrow> \<not> isspace U (last (strip U s))"
  unfolding strip_def
  by (metis hd_dropWhile last_rev rev_is_Nil_conv)

lemma strip_hd: "strip U s \<noteq> [] \<Longrightarrow> \<not> isspace U (hd (strip U s))"
proof -
  assume ne: "strip U s \<noteq> []"
  let ?d = "dropWhile (isspace U) s"
  let ?e = "dropWhile (isspace U) (rev ?d)"
  have e: "?e \<noteq> []" using ne by (simp add: strip_def)
  obtain p where p: "rev ?d = p @ ?e"
    by (metis takeWhile_dropWhile_id)
  have d: "?d \<noteq> []" using e by (metis dropWhile.simps(1) rev_is_Nil_conv)
  have "hd (strip U s) = last ?e" using e by (simp add: strip_def hd_rev)
  also have "\<dots> = last (rev ?d)" using p e by (metis last_appendR)
  also have "\<dots> = hd ?d" using d by (simp add: last_rev)
  finally show ?thesis using d by (metis hd_dropWhile)
qed

lemma re_sub_plus_chars:
  "c \<in> set (re_sub U fl (plus a) repl s) \<Longrightarrow> c \<in> set repl \<or> \<not> atom_ok U fl a c"
  unfolding re_sub_def
  by (erule sub_go_chars[rotated 2]) (auto dest: match_at_plus_None match_at_plus_Some)

lemma sub_go_At_filter:
  "sub_go U fl (At a) [] 0 pos s = filter (\<lambda>x. \<not> atom_ok U fl a x) s"
  by (induction s arbitrary: pos) (auto simp: match_at_def)

lemma re_sub_At_filter:
  "re_sub U fl (At a) [] s = filter (\<lambda>x. \<not> atom_ok U fl a x) s"
  by (simp add: re_sub_def sub_go_At_filter)

lemma clean_text_chars:
  assumes "c \<in> set (re_sub U no_flags (plus space) (u '' '') text)"
  shows "c = 32 \<or> \<not> isspace U c"
  using re_sub_plus_chars[OF assms] by (auto simp: u_def space_def)

text \<open>
  Claim C10. Whatever the input, the normalised text contains neither a line feed nor a
  carriage return and neither starts nor ends with white space, so that splitting it at
  line feeds gives exactly one line. The tables are only required to class the line feed
  and the carriage return as white space, as Unicode does.
\<close>

theorem clean_text_single_line:
  assumes nl: "isspace U 10" and cr: "isspace U 13"
  shows "10 \<notin> set (clean_text U s) \<and> 13 \<notin> set (clean_text U s)
    \<and> (clean_text U s = [] \<or>
         (\<not> isspace U (hd (clean_text U s)) \<and> \<not> isspace U (last (clean_text U s))))
    \<and> split_on 10 (clean_text U s) = [clean_text U s]"
proof -
  let ?t1 = "re_sub U no_flags (plus space) (u '' '') s"
  have t1: "10 \<notin> set ?t1 \<and> 13 \<notin> set ?t1"
    using clean_text_chars[of 10 U s] clean_text_chars[of 13 U s] nl cr by auto
  have r1: "replace (u [CHR 0x0D, CHR 0x0A]) (u [CHR 0x0A]) ?t1 = ?t1"
    using t1 by (simp add: replace_def replace_go_absent u_def)
  have r2: "replace (u [CHR 0x0D]) (u [CHR 0x0A]) ?t1 = ?t1"
    using t1 by (simp add: replace_def replace_go_absent u_def)
  have ct: "clean_text U s = (if s = [] then [] else strip U ?t1)"
    by (simp add: clean_text_def Let_def r1 r2)
  have sub: "set (clean_text U s) \<subseteq> set ?t1"
    using set_strip[of U ?t1] by (auto simp: ct)
  have a: "10 \<notin> set (clean_text U s) \<and> 13 \<notin> set (clean_text U s)"
    using sub t1 by auto
  have b: "clean_text U s = [] \<or>
         (\<not> isspace U (hd (clean_text U s)) \<and> \<not> isspace U (last (clean_text U s)))"
    using strip_hd[of U ?t1] strip_last[of U ?t1] by (auto simp: ct)
  show ?thesis using a b split_on_absent[of 10 "clean_text U s"] by blast
qed

theorem clean_text_single_line_witness:
  "isspace ascii_tables 10 \<and> isspace ascii_tables 13
   \<and> clean_text ascii_tables (u ''  Sold By:  ACME\<newline>  Ltd  '') = u ''Sold By: ACME Ltd''
   \<and> split_on 10 (clean_text ascii_tables (u ''  Sold By:  ACME\<newline>  Ltd  ''))
       = [u ''Sold By: ACME Ltd'']"
proof -
  have h: "isspace ascii_tables 10" "isspace ascii_tables 13"
    by (simp_all add: ascii_tables_def)
  have e: "clean_text ascii_tables (u ''  Sold By:  ACME\<newline>  Ltd  '') = u ''Sold By: ACME Ltd''"
    by code_simp
  show ?thesis
    using clean_text_single_line[OF h, of "u ''  Sold By:  ACME\<newline>  Ltd  ''"] h e by simp
qed


text \<open>
  Claim C2 as stated fails: the cleaner keeps every period, so \<^verbatim>\<open>1.2.3\<close> comes back
  unchanged, which is neither \<^verbatim>\<open>0.00\<close> nor of the shape \<^verbatim>\<open>^\d*\.?\d*$\<close>.
\<close>

theorem clean_currency_shape_counterexample:
  "clean_currency ascii_tables (PStr (u ''1.2.3'')) = u ''1.2.3''
   \<and> u ''1.2.3'' \<noteq> u ''0.00''
   \<and> re_match ascii_tables no_flags currency_shape (u ''1.2.3'') = None"
  by code_simp

text \<open>
  Claim C2, amended. For every input string the cleaner returns (it is a total function
  with no failing branch) either the default \<^verbatim>\<open>0.00\<close> or a non-empty string made of
  decimal digits and periods only, with any number of periods.
\<close>

theorem clean_currency_digits_periods:
  "clean_currency U (PStr s) = u ''0.00''
   \<or> (clean_currency U (PStr s) \<noteq> []
       \<and> (\<forall>c \<in> set (clean_currency U (PStr s)). isdecimal U c \<or> c = ord CHR ''.''))"
  by (auto simp: clean_currency_def truthy_def py_str_def Let_def re_sub_At_filter ord_def
      lit.simps no_flags_def)

theorem clean_currency_digits_periods_witness:
  "clean_currency ascii_tables (PStr (u ''Rs 1,234.50'')) = u ''1234.50''
   \<and> clean_currency ascii_tables (PStr (u ''Rs 1,234.50'')) \<noteq> u ''0.00''
   \<and> list_all (\<lambda>c. isdecimal ascii_tables c \<or> c = ord CHR ''.'') (u ''1234.50'')"
proof -
  have e: "clean_currency ascii_tables (PStr (u ''Rs 1,234.50'')) = u ''1234.50''"
    by code_simp
  have n: "u ''1234.50'' \<noteq> u ''0.00''" by (simp add: u_def)
  show ?thesis
    using clean_currency_digits_periods[of ascii_tables "u ''Rs 1,234.50''"] e n
    by (auto simp: list_all_iff)
qed

lemma takeWhile_length_ge:
  "n \<le> length (takeWhile P xs) \<longleftrightarrow> n \<le> length xs \<and> list_all P (take n xs)"
proof (induction xs arbitrary: n)
  case Nil then show ?case by simp
next
  case (Cons x xs)
  show ?case by (cases n) (auto simp: Cons.IH)
qed

lemma rmatch_exactly:
  "rmatch U fl (exactly n a) (pos, rest, caps) =
     (if n \<le> length rest \<and> list_all (atom_ok U fl a) (take n rest)
      then [(pos + n, drop n rest, caps)] else [])"
  by (auto simp: exactly_def Let_def takeWhile_length_ge min_def)

lemma search_from_SomeD:
  "search_from U fl r pos s = Some m \<Longrightarrow>
     \<exists>k \<le> length s. match_at U fl r (pos + k) (drop k s) = Some m"
proof (induction s arbitrary: pos)
  case Nil then show ?case by auto
next
  case (Cons x xs)
  show ?case
  proof (cases "match_at U fl r pos (x # xs)")
    case None
    with Cons.prems have "search_from U fl r (Suc pos) xs = Some m" by simp
    from Cons.IH[OF this] obtain k where "k \<le> length xs" "match_at U fl r (Suc pos + k) (drop k xs) = Some m" by auto
    then show ?thesis by (intro exI[of _ "Suc k"]) auto
  next
    case (Some m')
    with Cons.prems show ?thesis by (intro exI[of _ 0]) auto
  qed
qed

lemma length10D:
  "length s = 10 \<Longrightarrow> \<exists>x0 x1 x2 x3 x4 x5 x6 x7 x8 x9. s = [x0, x1, x2, x3, x4, x5, x6, x7, x8, x9]"
  by (auto simp: length_Suc_conv eval_nat_numeral)

lemma is_std_dateD:
  assumes "is_std_date U s"
  shows "\<exists>a b c d e f g h. s = [a, b, 47, c, d, 47, e, f, g, h]
     \<and> isdecimal U a \<and> isdecimal U b \<and> isdecimal U c \<and> isdecimal U d
     \<and> isdecimal U e \<and> isdecimal U f \<and> isdecimal U g \<and> isdecimal U h"
proof -
  from assms have "length s = 10" by (simp add: is_std_date_def)
  from length10D[OF this] obtain x0 x1 x2 x3 x4 x5 x6 x7 x8 x9
    where s: "s = [x0, x1, x2, x3, x4, x5, x6, x7, x8, x9]" by blast
  show ?thesis using assms unfolding s is_std_date_def by (simp add: ord_def)
qed

lemma std_date_fixed:
  assumes "is_std_date U s" and "\<not> isdecimal U (ord CHR ''/'')"
  shows "standardize_date U s = Inr s"
proof -
  from is_std_dateD[OF assms(1)] obtain a b c d e f g h where
    s: "s = [a, b, 47, c, d, 47, e, f, g, h]"
    and dg: "isdecimal U a" "isdecimal U b" "isdecimal U c" "isdecimal U d"
       "isdecimal U e" "isdecimal U f" "isdecimal U g" "isdecimal U h"
    by blast
  have n47: "\<not> isdecimal U 47" using assms(2) by (simp add: ord_def)
  have p1: "re_search U no_flags (dmy_pattern CHR ''.'') s = None"
    using dg n47 unfolding s
    by (simp add: re_search_def match_at_def dmy_pattern_def rmatch_exactly ord_def digit_def no_flags_def)
  have p2: "re_search U no_flags (dmy_pattern CHR ''/'') s = Some (0, 10, [(3, [e,f,g,h]), (2, [c,d]), (1, [a,b])])"
    using dg n47 unfolding s
    by (simp add: re_search_def match_at_def dmy_pattern_def rmatch_exactly ord_def digit_def no_flags_def)
  show ?thesis
    using p1 p2 apply (simp add: standardize_date_def date_patterns_def group_def py_len_def py_str_def u_def)
    by (simp add: s)
qed

lemma atom_ok_digit: "atom_ok U fl digit = isdecimal U"
  by (rule ext) (simp add: digit_def)

lemma atom_ok_space: "atom_ok U fl space = isspace U"
  by (rule ext) (simp add: space_def)

lemma std_date_build:
  assumes "length g1 = 2" "length g2 = 2" "length g3 = 4"
    "list_all (isdecimal U) g1" "list_all (isdecimal U) g2" "list_all (isdecimal U) g3"
  shows "is_std_date U (g1 @ u ''/'' @ g2 @ u ''/'' @ g3)"
  using assms by (simp add: is_std_date_def u_def ord_def nth_append)

lemma dmy_match_groups:
  assumes "match_at U no_flags (dmy_pattern sep) pos rest = Some m"
  shows "\<exists>g1 g2 g3. group m 1 = PStr g1 \<and> group m 2 = PStr g2 \<and> group m 3 = PStr g3
     \<and> length g1 = 2 \<and> length g2 = 2 \<and> length g3 = 4
     \<and> list_all (isdecimal U) g1 \<and> list_all (isdecimal U) g2 \<and> list_all (isdecimal U) g3"
  using assms
  by (auto simp: match_at_def dmy_pattern_def rmatch_exactly group_def atom_ok_digit
      split: list.splits if_splits)

lemma ymd_match_groups:
  assumes "match_at U no_flags ymd_pattern pos rest = Some m"
  shows "\<exists>g1 g2 g3. group m 1 = PStr g1 \<and> group m 2 = PStr g2 \<and> group m 3 = PStr g3
     \<and> length g1 = 4 \<and> length g2 = 2 \<and> length g3 = 2
     \<and> list_all (isdecimal U) g1 \<and> list_all (isdecimal U) g2 \<and> list_all (isdecimal U) g3"
  using assms
  by (auto simp: match_at_def ymd_pattern_def rmatch_exactly group_def atom_ok_digit
      split: list.splits if_splits)

lemma re_search_SomeD:
  "re_search U fl r s = Some m \<Longrightarrow> \<exists>k \<le> length s. match_at U fl r k (drop k s) = Some m"
  unfolding re_search_def by (drule search_from_SomeD) simp

lemma date_loop_dmy:
  assumes "re_search U no_flags (dmy_pattern sep) s = Some m"
  shows "\<exists>t. date_loop U (dmy_pattern sep # ps) s = Inr t \<and> is_std_date U t"
proof -
  from re_search_SomeD[OF assms] obtain k where "match_at U no_flags (dmy_pattern sep) k (drop k s) = Some m"
    by blast
  from dmy_match_groups[OF this] obtain g1 g2 g3 where
    g: "group m 1 = PStr g1" "group m 2 = PStr g2" "group m 3 = PStr g3"
    "length g1 = 2" "length g2 = 2" "length g3 = 4"
    "list_all (isdecimal U) g1" "list_all (isdecimal U) g2" "list_all (isdecimal U) g3" by blast
  show ?thesis using assms g std_date_build[of g1 g2 g3 U]
    by (simp add: py_len_def py_str_def)
qed

lemma date_loop_ymd:
  assumes "re_search U no_flags ymd_pattern s = Some m"
  shows "\<exists>t. date_loop U (ymd_pattern # ps) s = Inr t \<and> is_std_date U t"
proof -
  from re_search_SomeD[OF assms] obtain k where "match_at U no_flags ymd_pattern k (drop k s) = Some m"
    by blast
  from ymd_match_groups[OF this] obtain g1 g2 g3 where
    g: "group m 1 = PStr g1" "group m 2 = PStr g2" "group m 3 = PStr g3"
    "length g1 = 4" "length g2 = 2" "length g3 = 2"
    "list_all (isdecimal U) g1" "list_all (isdecimal U) g2" "list_all (isdecimal U) g3" by blast
  show ?thesis using assms g std_date_build[of g3 g2 g1 U]
    by (simp add: py_len_def py_str_def)
qed

lemma date_loop_result:
  "\<exists>t. date_loop U date_patterns s = Inr t \<and> (t = s \<or> is_std_date U t)"
proof (cases "re_search U no_flags (dmy_pattern CHR ''.'') s")
  case (Some m)
  from date_loop_dmy[OF this] show ?thesis by (auto simp: date_patterns_def)
next
  case n1: None
  show ?thesis
  proof (cases "re_search U no_flags (dmy_pattern CHR ''/'') s")
    case (Some m)
    from date_loop_dmy[OF this] n1 show ?thesis
      by (auto simp: date_patterns_def simp del: date_loop.simps(2) simp add: date_loop.simps(2)[of U "dmy_pattern CHR ''.''"])
  next
    case n2: None
    show ?thesis
    proof (cases "re_search U no_flags (dmy_pattern CHR ''-'') s")
      case (Some m)
      from date_loop_dmy[OF this] n1 n2 show ?thesis
        by (auto simp: date_patterns_def simp del: date_loop.simps(2)
            simp add: date_loop.simps(2)[of U "dmy_pattern CHR ''.''"] date_loop.simps(2)[of U "dmy_pattern CHR ''/''"])
    next
      case n3: None
      show ?thesis
      proof (cases "re_search U no_flags ymd_pattern s")
        case (Some m)
        from date_loop_ymd[OF this] n1 n2 n3 show ?thesis
          by (auto simp: date_patterns_def simp del: date_loop.simps(2)
            simp add: date_loop.simps(2)[of U "dmy_pattern CHR ''.''"] date_loop.simps(2)[of U "dmy_pattern CHR ''/''"]
              date_loop.simps(2)[of U "dmy_pattern CHR ''-''"])
      next
        case n4: None
        with n1 n2 n3 show ?thesis by (simp add: date_patterns_def)
      qed
    qed
  qed
qed

text \<open>
  Claim C3. The date standardiser always returns, and its result is a fixed point: applying
  it to its own output gives that output again. This holds for every input, hence for
  every input that one of the four patterns covers. In particular a string that is
  already of the form DD/MM/YYYY is returned unchanged. The tables are only required not
  to class the slash as a decimal digit.
\<close>

theorem standardize_date_idempotent:
  assumes "\<not> isdecimal U (ord CHR ''/'')"
  shows "(\<exists>t. standardize_date U d = Inr t \<and> standardize_date U t = Inr t)
    \<and> (is_std_date U d \<longrightarrow> standardize_date U d = Inr d)"
proof -
  have fixed: "\<And>s. is_std_date U s \<Longrightarrow> standardize_date U s = Inr s"
    using assms by (rule std_date_fixed[rotated])
  have "\<exists>t. standardize_date U d = Inr t \<and> standardize_date U t = Inr t"
  proof (cases "d = [] \<or> d = u ''N/A''")
    case True
    then have "standardize_date U d = Inr (u ''N/A'')" by (simp add: standardize_date_def)
    moreover have "standardize_date U (u ''N/A'') = Inr (u ''N/A'')" by (simp add: standardize_date_def)
    ultimately show ?thesis by simp
  next
    case False
    then have sd: "standardize_date U d = date_loop U date_patterns d"
      by (simp add: standardize_date_def)
    from date_loop_result[of U d] obtain t where
      t: "date_loop U date_patterns d = Inr t" "t = d \<or> is_std_date U t" by blast
    from t(2) have "standardize_date U t = Inr t"
    proof
      assume "t = d" then show ?thesis using sd t(1) by simp
    next
      assume "is_std_date U t" then show ?thesis by (rule fixed)
    qed
    then show ?thesis using sd t(1) by simp
  qed
  then show ?thesis using fixed by blast
qed

theorem standardize_date_idempotent_witness:
  "\<not> isdecimal ascii_tables (ord CHR ''/'')
   \<and> standardize_date ascii_tables (u ''2023-01-02'') = Inr (u ''02/01/2023'')
   \<and> standardize_date ascii_tables (u ''02/01/2023'') = Inr (u ''02/01/2023'')
   \<and> is_std_date ascii_tables (u ''02/01/2023'')"
proof -
  have h: "\<not> isdecimal ascii_tables (ord CHR ''/'')" by (simp add: ascii_tables_def ord_def)
  have e: "standardize_date ascii_tables (u ''2023-01-02'') = Inr (u ''02/01/2023'')"
    by code_simp
  have s: "is_std_date ascii_tables (u ''02/01/2023'')" by code_simp
  show ?thesis
    using standardize_date_idempotent[OF h, of "u ''2023-01-02''"]
      standardize_date_idempotent[OF h, of "u ''02/01/2023''"] h e s by simp
qed

text \<open>
  Claim C4. The detector is a function of the text and the file name, its result is one
  of the three tags, and it decides in the stated order, the first hit winning: the file
  name is looked at before the text. Containment is tested on the lower-cased string,
  except for the marker \<^verbatim>\<open>ASSPL-Amazon\<close>, which is looked for in the text as it is. With
  the file name \<^verbatim>\<open>amazon_x.pdf\<close> (which lower-casing leaves as it is) the result is
  \<^verbatim>\<open>amazon\<close> whatever the text.
\<close>

theorem detect_invoice_type_order:
  "detect_invoice_type U t f \<in> {u ''amazon'', u ''flipkart'', u ''unknown''}
   \<and> (contains (u ''amazon'') (lower U f) \<longrightarrow> detect_invoice_type U t f = u ''amazon'')
   \<and> (\<not> contains (u ''amazon'') (lower U f) \<and> contains (u ''flipkart'') (lower U f)
        \<longrightarrow> detect_invoice_type U t f = u ''flipkart'')
   \<and> (\<not> contains (u ''amazon'') (lower U f) \<and> \<not> contains (u ''flipkart'') (lower U f)
        \<and> (contains (u ''amazon'') (lower U t) \<or> contains (u ''ASSPL-Amazon'') t)
        \<longrightarrow> detect_invoice_type U t f = u ''amazon'')
   \<and> (\<not> contains (u ''amazon'') (lower U f) \<and> \<not> contains (u ''flipkart'') (lower U f)
        \<and> \<not> contains (u ''amazon'') (lower U t) \<and> \<not> contains (u ''ASSPL-Amazon'') t
        \<and> contains (u ''flipkart'') (lower U t)
        \<longrightarrow> detect_invoice_type U t f = u ''flipkart'')
   \<and> (\<not> contains (u ''amazon'') (lower U f) \<and> \<not> contains (u ''flipkart'') (lower U f)
        \<and> \<not> contains (u ''amazon'') (lower U t) \<and> \<not> contains (u ''ASSPL-Amazon'') t
        \<and> \<not> contains (u ''flipkart'') (lower U t)
        \<longrightarrow> detect_invoice_type U t f = u ''unknown'')
   \<and> (lower U (u ''amazon_x.pdf'') = u ''amazon_x.pdf''
        \<longrightarrow> detect_invoice_type U t (u ''amazon_x.pdf'') = u ''amazon'')"
proof -
  have c: "contains (u ''amazon'') (u ''amazon_x.pdf'')" by code_simp
  show ?thesis using c by (simp add: detect_invoice_type_def Let_def)
qed


theorem detect_invoice_type_order_witness:
  "detect_invoice_type ascii_tables (u ''Sold on Flipkart'') (u ''amazon_x.pdf'') = u ''amazon''
   \<and> detect_invoice_type ascii_tables (u ''Amazon order'') (u ''FLIPKART_7.pdf'') = u ''flipkart''
   \<and> detect_invoice_type ascii_tables (u ''Amazon order'') (u ''scan.pdf'') = u ''amazon''
   \<and> detect_invoice_type ascii_tables (u ''Sold on Flipkart'') (u ''scan.pdf'') = u ''flipkart''
   \<and> detect_invoice_type ascii_tables (u ''Tax invoice'') (u ''scan.pdf'') = u ''unknown''
   \<and> lower ascii_tables (u ''amazon_x.pdf'') = u ''amazon_x.pdf''"
proof -
  have l: "lower ascii_tables (u ''amazon_x.pdf'') = u ''amazon_x.pdf''" by code_simp
  have f1: "contains (u ''amazon'') (lower ascii_tables (u ''amazon_x.pdf''))" by code_simp
  have f2: "\<not> contains (u ''amazon'') (lower ascii_tables (u ''FLIPKART_7.pdf''))"
    "contains (u ''flipkart'') (lower ascii_tables (u ''FLIPKART_7.pdf''))" by code_simp+
  have f3: "\<not> contains (u ''amazon'') (lower ascii_tables (u ''scan.pdf''))"
    "\<not> contains (u ''flipkart'') (lower ascii_tables (u ''scan.pdf''))" by code_simp+
  have t1: "contains (u ''amazon'') (lower ascii_tables (u ''Amazon order''))" by code_simp
  have t2: "\<not> contains (u ''amazon'') (lower ascii_tables (u ''Sold on Flipkart''))"
    "\<not> contains (u ''ASSPL-Amazon'') (u ''Sold on Flipkart'')"
    "contains (u ''flipkart'') (lower ascii_tables (u ''Sold on Flipkart''))" by code_simp+
  have t3: "\<not> contains (u ''amazon'') (lower ascii_tables (u ''Tax invoice''))"
    "\<not> contains (u ''ASSPL-Amazon'') (u ''Tax invoice'')"
    "\<not> contains (u ''flipkart'') (lower ascii_tables (u ''Tax invoice''))" by code_simp+
  have a1: "detect_invoice_type ascii_tables (u ''Sold on Flipkart'') (u ''amazon_x.pdf'') = u ''amazon''"
    using detect_invoice_type_order[of ascii_tables "u ''Sold on Flipkart''" "u ''amazon_x.pdf''"] f1
    by (elim conjE) (erule mp, simp)
  have a2: "detect_invoice_type ascii_tables (u ''Amazon order'') (u ''FLIPKART_7.pdf'') = u ''flipkart''"
    using detect_invoice_type_order[of ascii_tables "u ''Amazon order''" "u ''FLIPKART_7.pdf''"] f2
    by (elim conjE) (rotate_tac 2, erule mp, simp)
  have a3: "detect_invoice_type ascii_tables (u ''Amazon order'') (u ''scan.pdf'') = u ''amazon''"
    using detect_invoice_type_order[of ascii_tables "u ''Amazon order''" "u ''scan.pdf''"] f3 t1
    by (elim conjE) (rotate_tac 3, erule mp, simp)
  have a4: "detect_invoice_type ascii_tables (u ''Sold on Flipkart'') (u ''scan.pdf'') = u ''flipkart''"
    using detect_invoice_type_order[of ascii_tables "u ''Sold on Flipkart''" "u ''scan.pdf''"] f3 t2
    by (elim conjE) (rotate_tac 4, erule mp, simp)
  have a5: "detect_invoice_type ascii_tables (u ''Tax invoice'') (u ''scan.pdf'') = u ''unknown''"
    using detect_invoice_type_order[of ascii_tables "u ''Tax invoice''" "u ''scan.pdf''"] f3 t3
    by (elim conjE) (rotate_tac 5, erule mp, simp)
  show ?thesis using a1 a2 a3 a4 a5 l by simp
qed

subsection \<open>Groups that always take part\<close>

lemma rmatch_caps_mono:
  "(p', r', c') \<in> set (rmatch U fl r (p, s, c)) \<Longrightarrow> map_of c i \<noteq> None \<Longrightarrow> map_of c' i \<noteq> None"
proof (induction r arbitrary: p s c p' r' c')
  case (At a)
  then show ?case by (auto split: list.splits if_splits)
next
  case (Seq a b)
  from Seq.prems(1) obtain q t d where
    1: "(q, t, d) \<in> set (rmatch U fl a (p, s, c))" and 2: "(p', r', c') \<in> set (rmatch U fl b (q, t, d))"
    by auto
  from Seq.IH(2)[OF 2 Seq.IH(1)[OF 1 Seq.prems(2)]] show ?case .
next
  case (Alt a b)
  then show ?case by auto
next
  case (Rep a lo hi g)
  then show ?case by (auto simp: Let_def split: if_splits)
next
  case (Opt a)
  then show ?case by auto
next
  case (Grp j a)
  then show ?case by auto
next
  case (Look a)
  then show ?case by (auto split: if_splits)
next
  case Bol
  then show ?case by (auto split: if_splits)
next
  case Eol
  then show ?case by (auto split: if_splits)
next
  case Eps
  then show ?case by auto
qed

lemma rmatch_binds:
  "binds i r \<Longrightarrow> (p', r', c') \<in> set (rmatch U fl r (p, s, c)) \<Longrightarrow> map_of c' i \<noteq> None"
proof (induction r arbitrary: p s c p' r' c')
  case (Seq a b)
  from Seq.prems(2) obtain q t d where
    1: "(q, t, d) \<in> set (rmatch U fl a (p, s, c))" and 2: "(p', r', c') \<in> set (rmatch U fl b (q, t, d))"
    by auto
  from Seq.prems(1) have "binds i a \<or> binds i b" by simp
  then show ?case
  proof
    assume "binds i a"
    from rmatch_caps_mono[OF 2 Seq.IH(1)[OF this 1]] show ?thesis .
  next
    assume "binds i b"
    from Seq.IH(2)[OF this 2] show ?thesis .
  qed
next
  case (Alt a b)
  then show ?case by auto
next
  case (Grp j a)
  then show ?case by auto
qed simp_all

lemma match_at_group:
  assumes "binds i r" and "match_at U fl r p s = Some m"
  shows "is_str (group m i)"
proof -
  obtain b e caps where m: "m = (b, e, caps)" by (cases m)
  from match_at_SomeD[OF assms(2)[unfolded m]] obtain t where
    "(e, t, caps) \<in> set (rmatch U fl r (p, s, []))" by blast
  from rmatch_binds[OF assms(1) this] show ?thesis
    by (auto simp: group_def m is_str_def)
qed

lemma re_search_group:
  assumes "binds i r" and "re_search U fl r s = Some m"
  shows "is_str (group m i)"
  using re_search_SomeD[OF assms(2)] match_at_group[OF assms(1)] by blast

lemma first_search_group:
  assumes "list_all (binds i) rs" and "first_search U fl rs s = Some m"
  shows "is_str (group m i)"
  using assms
  by (induction rs) (auto split: option.splits dest: re_search_group)

lemma is_strE: "is_str v \<Longrightarrow> \<exists>s. v = PStr s"
  by (cases v) (auto simp: is_str_def)

subsection \<open>The blocks never raise\<close>

lemma stripped_group_ok:
  assumes "\<And>m. mo = Some m \<Longrightarrow> is_str (group m 1)"
  shows "\<not> raises (stripped_group U mo) \<and>
         (\<forall>v. stripped_group U mo = Some (Inr v) \<longrightarrow> is_str v)"
  using assms
  by (cases mo) (auto simp: stripped_group_def raises_def py_strip_def is_str_def split: pyval.splits)

lemma currency_group_ok:
  "\<not> raises (currency_group U mo) \<and> (\<forall>v. currency_group U mo = Some (Inr v) \<longrightarrow> is_str v)"
  by (cases mo) (auto simp: currency_group_def raises_def is_str_def)

lemma standardize_date_Inr: "\<exists>t. standardize_date U s = Inr t"
  using date_loop_result[of U s] by (auto simp: standardize_date_def)

lemma date_group_ok:
  assumes "\<And>m. mo = Some m \<Longrightarrow> is_str (group m 1)"
  shows "\<not> raises (date_group U mo) \<and> (\<forall>v. date_group U mo = Some (Inr v) \<longrightarrow> is_str v)"
proof (cases mo)
  case None
  then show ?thesis by (simp add: date_group_def raises_def)
next
  case (Some m)
  from assms[OF Some] obtain s where s: "group m 1 = PStr s" by (auto dest: is_strE)
  obtain t where t: "standardize_date U (strip U s) = Inr t" using standardize_date_Inr by blast
  show ?thesis using Some s t by (auto simp: date_group_def raises_def py_strip_def is_str_def)
qed

lemma address_group_ok:
  assumes "\<And>m. mo = Some m \<Longrightarrow> is_str (group m 1)"
  shows "\<not> raises (address_group U mo) \<and> (\<forall>v. address_group U mo = Some (Inr v) \<longrightarrow> is_str v)"
  using assms
  by (cases mo) (auto simp: address_group_def raises_def py_strip_def is_str_def split: pyval.splits)

lemma sound_iff: "sound r \<longleftrightarrow> \<not> raises r \<and> (\<forall>v. r = Some (Inr v) \<longrightarrow> is_str v)"
  by (auto simp: sound_def raises_def split: option.splits sum.splits)

lemma sound_stripped:
  "(\<And>m. mo = Some m \<Longrightarrow> is_str (group m 1)) \<Longrightarrow> sound (stripped_group U mo)"
  using stripped_group_ok[of mo U] by (simp add: sound_iff)

lemma sound_currency: "sound (currency_group U mo)"
  using currency_group_ok[of U mo] by (simp add: sound_iff)

lemma sound_date:
  "(\<And>m. mo = Some m \<Longrightarrow> is_str (group m 1)) \<Longrightarrow> sound (date_group U mo)"
  using date_group_ok[of mo U] by (simp add: sound_iff)

lemma sound_address:
  "(\<And>m. mo = Some m \<Longrightarrow> is_str (group m 1)) \<Longrightarrow> sound (address_group U mo)"
  using address_group_ok[of mo U] by (simp add: sound_iff)

lemma binds_cat [simp]: "binds i (cat rs) = list_ex (binds i) rs"
  by (induction rs rule: cat.induct) auto

lemma binds_lit [simp]: "\<not> binds i (lit s)"
  by (induction s rule: lit.induct) auto

lemma binds_frag [simp]:
  "\<not> binds i ws0" "\<not> binds i ws1" "\<not> binds i colon_ws" "\<not> binds i Rs" "\<not> binds i (star a)"
  "\<not> binds i (plus a)" "\<not> binds i (opt1 a)" "\<not> binds i (exactly n a)" "\<not> binds i any_lazy"
  "\<not> binds i any_greedy" "\<not> binds i upto_rupee" "\<not> binds i amount"
  by (simp_all add: ws0_def ws1_def colon_ws_def Rs_def star_def plus_def opt1_def exactly_def
      any_lazy_def any_greedy_def upto_rupee_def amount_def)

subsection \<open>Every block of the Amazon rule set is sound\<close>

lemma sound_amazon_order_number: "sound (amazon_order_number U text)"
  unfolding amazon_order_number_def
  by (rule sound_stripped, erule first_search_group[rotated]) (simp add: amazon_order_patterns_def)

lemma sound_amazon_invoice_number: "sound (amazon_invoice_number U text)"
  unfolding amazon_invoice_number_def
  by (rule sound_stripped, erule re_search_group[rotated]) (simp add: amazon_invoice_number_pattern_def)

lemma sound_amazon_order_date: "sound (amazon_order_date U text)"
  unfolding amazon_order_date_def
  by (rule sound_date, erule re_search_group[rotated]) (simp add: order_date_pattern_def)

lemma sound_amazon_invoice_date: "sound (amazon_invoice_date U text)"
  unfolding amazon_invoice_date_def
  by (rule sound_date, erule re_search_group[rotated]) (simp add: invoice_date_pattern_def)

lemma sound_product_loop: "sound (product_loop U lines i rest)"
  by (induction rest arbitrary: i) (auto simp: sound_def is_str_def)

lemma sound_amazon_product_name: "sound (amazon_product_name U text)"
  by (simp add: amazon_product_name_def Let_def sound_product_loop)

lemma sound_amazon_hsn_code: "sound (amazon_hsn_code U text)"
  unfolding amazon_hsn_code_def
  by (rule sound_stripped, erule re_search_group[rotated]) (simp add: amazon_hsn_pattern_def)

lemma sound_amazon_quantity: "sound (amazon_quantity U text)"
proof (cases "re_search U no_flags qty_pattern text")
  case None
  then show ?thesis by (simp add: amazon_quantity_def sound_def)
next
  case (Some m)
  have "binds 1 qty_pattern" by (simp add: qty_pattern_def)
  from re_search_group[OF this Some] show ?thesis using Some
    by (simp add: amazon_quantity_def sound_def)
qed

lemma sound_amazon_tax_rate: "sound (amazon_tax_rate U text)"
  by (auto simp: amazon_tax_rate_def sound_def is_str_def split: option.splits)

lemma sound_amazon_seller_name: "sound (amazon_seller_name U text)"
proof (cases "re_search U ignorecase amazon_seller_pattern text")
  case None
  then show ?thesis by (simp add: amazon_seller_name_def sound_def)
next
  case (Some m)
  have "binds 1 amazon_seller_pattern" by (simp add: amazon_seller_pattern_def)
  from re_search_group[OF this Some] obtain s where "group m 1 = PStr s" by (auto dest: is_strE)
  then show ?thesis using Some
    by (simp add: amazon_seller_name_def sound_def py_strip_def Let_def is_str_def)
qed

lemma sound_amazon_payment_mode: "sound (amazon_payment_mode U text)"
  unfolding amazon_payment_mode_def
  by (rule sound_stripped, erule re_search_group[rotated]) (simp add: payment_pattern_def)

lemma sound_amazon_seller_gst: "sound (amazon_seller_gst U text)"
  unfolding amazon_seller_gst_def
  by (rule sound_stripped, erule re_search_group[rotated]) (simp add: amazon_gst_pattern_def)

lemma sound_amazon_billing_address: "sound (amazon_billing_address U text)"
  unfolding amazon_billing_address_def
  by (rule sound_address, erule re_search_group[rotated]) (simp add: amazon_billing_pattern_def address_pattern_def)

lemma sound_amazon_shipping_address: "sound (amazon_shipping_address U text)"
  unfolding amazon_shipping_address_def
  by (rule sound_address, erule re_search_group[rotated])
     (simp add: amazon_shipping_address_pattern_def address_pattern_def)

lemma sound_amazon_rules: "list_all (\<lambda>kr. sound (snd kr)) (amazon_rules U text)"
  by (simp add: amazon_rules_def sound_amazon_order_number sound_amazon_invoice_number
      sound_amazon_order_date sound_amazon_invoice_date sound_amazon_product_name
      sound_amazon_hsn_code sound_amazon_quantity sound_amazon_tax_rate sound_amazon_seller_name
      sound_amazon_payment_mode sound_amazon_seller_gst sound_amazon_billing_address
      sound_amazon_shipping_address sound_currency
      amazon_unit_price_def amazon_net_amount_def amazon_tax_amount_def amazon_total_amount_def
      amazon_shipping_charges_def amazon_grand_total_def)

subsection \<open>Every block of the Flipkart rule set is sound\<close>

lemma sound_flipkart_order_number: "sound (flipkart_order_number U text)"
  unfolding flipkart_order_number_def
  by (rule sound_stripped, erule re_search_group[rotated]) (simp add: flipkart_order_pattern_def)

lemma sound_flipkart_invoice_number: "sound (flipkart_invoice_number U text)"
  unfolding flipkart_invoice_number_def
  by (rule sound_stripped, erule first_search_group[rotated]) (simp add: flipkart_invoice_patterns_def)

lemma sound_flipkart_order_date: "sound (flipkart_order_date U text)"
  unfolding flipkart_order_date_def
  by (rule sound_date, erule re_search_group[rotated]) (simp add: flipkart_order_date_pattern_def)

lemma sound_flipkart_invoice_date: "sound (flipkart_invoice_date U text)"
  unfolding flipkart_invoice_date_def
  by (rule sound_date, erule re_search_group[rotated]) (simp add: flipkart_invoice_date_pattern_def)

lemma sound_flipkart_product_loop:
  "list_all (binds 1) ps \<Longrightarrow> sound (flipkart_product_loop U ps text)"
proof (induction ps)
  case Nil
  then show ?case by (simp add: sound_def)
next
  case (Cons p ps)
  show ?case
  proof (cases "re_search U ignorecase_dotall p text")
    case None
    then show ?thesis using Cons by simp
  next
    case (Some m)
    from Cons.prems have "binds 1 p" by simp
    from re_search_group[OF this Some] obtain s where "group m 1 = PStr s" by (auto dest: is_strE)
    then show ?thesis using Some Cons
      by (simp add: py_strip_def Let_def sound_def is_str_def)
  qed
qed

lemma sound_flipkart_product_name: "sound (flipkart_product_name U text)"
  unfolding flipkart_product_name_def
  by (rule sound_flipkart_product_loop) (simp add: flipkart_product_patterns_def)

lemma sound_flipkart_hsn_code: "sound (flipkart_hsn_code U text)"
  unfolding flipkart_hsn_code_def
  by (rule sound_stripped, erule re_search_group[rotated]) (simp add: flipkart_hsn_pattern_def)

lemma sound_flipkart_quantity: "sound (flipkart_quantity U text)"
proof (cases "re_search U ignorecase flipkart_qty_pattern text")
  case None
  then show ?thesis by (simp add: flipkart_quantity_def sound_def)
next
  case (Some m)
  have "binds 1 flipkart_qty_pattern" by (simp add: flipkart_qty_pattern_def)
  from re_search_group[OF this Some] show ?thesis using Some
    by (simp add: flipkart_quantity_def sound_def)
qed

lemma sound_flipkart_tax_rate: "sound (flipkart_tax_rate U text)"
  by (auto simp: flipkart_tax_rate_def sound_def is_str_def split: option.splits)

lemma sound_flipkart_shipping_loop: "sound (flipkart_shipping_loop U ps text)"
  by (induction ps) (auto simp: sound_def is_str_def split: option.splits)

lemma sound_flipkart_seller_name: "sound (flipkart_seller_name U text)"
proof (cases "re_search U ignorecase flipkart_seller_pattern text")
  case None
  then show ?thesis by (simp add: flipkart_seller_name_def sound_def)
next
  case (Some m)
  have "binds 1 flipkart_seller_pattern" by (simp add: flipkart_seller_pattern_def)
  from re_search_group[OF this Some] obtain s where "group m 1 = PStr s" by (auto dest: is_strE)
  then show ?thesis using Some
    by (simp add: flipkart_seller_name_def sound_def py_strip_def is_str_def)
qed

lemma sound_flipkart_seller_gst: "sound (flipkart_seller_gst U text)"
  unfolding flipkart_seller_gst_def
  by (rule sound_stripped, erule first_search_group[rotated]) (simp add: flipkart_gst_patterns_def)

lemma sound_flipkart_billing_address: "sound (flipkart_billing_address U text)"
  unfolding flipkart_billing_address_def
  by (rule sound_address, erule re_search_group[rotated]) (simp add: flipkart_billing_pattern_def address_pattern_def)

lemma sound_flipkart_shipping_address: "sound (flipkart_shipping_address U text)"
  unfolding flipkart_shipping_address_def
  by (rule sound_address, erule re_search_group[rotated])
     (simp add: flipkart_shipping_address_pattern_def address_pattern_def)

lemma sound_flipkart_rules: "list_all (\<lambda>kr. sound (snd kr)) (flipkart_rules U text)"
  by (simp add: flipkart_rules_def sound_flipkart_order_number sound_flipkart_invoice_number
      sound_flipkart_order_date sound_flipkart_invoice_date sound_flipkart_product_name
      sound_flipkart_hsn_code sound_flipkart_quantity sound_flipkart_tax_rate
      sound_flipkart_seller_name sound_flipkart_seller_gst sound_flipkart_billing_address
      sound_flipkart_shipping_address sound_currency sound_flipkart_shipping_loop
      flipkart_unit_price_def flipkart_net_amount_def flipkart_tax_amount_def
      flipkart_grand_total_def flipkart_shipping_charges_def)

subsection \<open>Running the blocks\<close>

lemma run_rules_fst: "fst (run_rules rs d) = apply_rules (before_raise rs) d"
proof (induction rs arbitrary: d)
  case Nil
  then show ?case by (simp add: before_raise_def)
next
  case (Cons kr rs)
  obtain k r where kr: "kr = (k, r)" by (cases kr)
  show ?case
  proof (cases r)
    case None
    then show ?thesis
      by (simp add: kr assign_def raises_def before_raise_def Cons[unfolded before_raise_def])
  next
    case (Some x)
    show ?thesis
    proof (cases x)
      case (Inl e)
      then show ?thesis using Some by (simp add: kr assign_def raises_def before_raise_def)
    next
      case (Inr v)
      then show ?thesis using Some
        by (simp add: kr assign_def raises_def before_raise_def Cons[unfolded before_raise_def]
            fun_upd_def)
    qed
  qed
qed

lemma run_rules_snd:
  "list_all (\<lambda>kr. \<not> raises (snd kr)) rs \<Longrightarrow> snd (run_rules rs d) = None"
proof (induction rs arbitrary: d)
  case Nil
  then show ?case by simp
next
  case (Cons kr rs)
  obtain k r where kr: "kr = (k, r)" by (cases kr)
  show ?case using Cons
    by (cases r rule: option.exhaust; cases "the r") (auto simp: kr assign_def raises_def)
qed

lemma before_raise_all:
  "list_all (\<lambda>kr. \<not> raises (snd kr)) rs \<Longrightarrow> before_raise rs = rs"
  by (simp add: before_raise_def list_all_iff)

lemma sound_not_raises: "sound r \<Longrightarrow> \<not> raises r"
  by (simp add: sound_iff)

lemma apply_rules_dom:
  "fst ` set rs \<subseteq> dom d \<Longrightarrow> dom (apply_rules rs d) = dom d"
proof (induction rs arbitrary: d)
  case Nil
  then show ?case by simp
next
  case (Cons kr rs)
  obtain k r where kr: "kr = (k, r)" by (cases kr)
  let ?d = "case r of Some (Inr v) \<Rightarrow> d(k \<mapsto> v) | _ \<Rightarrow> d"
  have dd: "dom ?d = dom d" using Cons.prems
    by (auto simp: kr split: option.splits sum.splits)
  have "dom (apply_rules rs ?d) = dom ?d"
    by (rule Cons.IH) (use Cons.prems dd in auto)
  then show ?case by (simp add: kr dd)
qed

lemma apply_rules_str:
  assumes "\<And>k v. d k = Some v \<Longrightarrow> is_str v"
    and "list_all (\<lambda>kr. sound (snd kr)) rs"
    and "apply_rules rs d k = Some v"
  shows "is_str v"
  using assms
proof (induction rs arbitrary: d)
  case Nil
  then show ?case by simp
next
  case (Cons kr rs)
  obtain k' r where kr: "kr = (k', r)" by (cases kr)
  let ?d = "case r of Some (Inr v) \<Rightarrow> d(k' \<mapsto> v) | _ \<Rightarrow> d"
  have s: "sound r" using Cons.prems(2) by (simp add: kr)
  have 1: "\<And>k v. ?d k = Some v \<Longrightarrow> is_str v"
    using Cons.prems(1) s by (auto simp: sound_def split: option.splits sum.splits if_splits)
  show ?case
    by (rule Cons.IH[of ?d]) (use 1 Cons.prems in \<open>auto simp: kr\<close>)
qed

lemma apply_rules_other:
  "k \<notin> fst ` set rs \<Longrightarrow> apply_rules rs d k = d k"
proof (induction rs arbitrary: d)
  case Nil
  then show ?case by simp
next
  case (Cons kr rs)
  obtain k' r where kr: "kr = (k', r)" by (cases kr)
  show ?case using Cons
    by (auto simp: kr split: option.splits sum.splits)
qed

lemma apply_rules_lookup:
  assumes "distinct (map fst rs)" and "(k, r) \<in> set rs"
  shows "apply_rules rs d k = (case r of Some (Inr v) \<Rightarrow> Some v | _ \<Rightarrow> d k)"
  using assms
proof (induction rs arbitrary: d)
  case Nil
  then show ?case by simp
next
  case (Cons kr rs)
  obtain k' r' where kr: "kr = (k', r')" by (cases kr)
  show ?case
  proof (cases "(k, r) = (k', r')")
    case True
    then have "k \<notin> fst ` set rs" using Cons.prems(1) by (auto simp: kr)
    from apply_rules_other[OF this] show ?thesis using True
      by (auto simp: kr split: option.splits sum.splits)
  next
    case False
    then have in_rs: "(k, r) \<in> set rs" using Cons.prems(2) by (auto simp: kr)
    then have ne: "k \<noteq> k'" using Cons.prems(1) by (force simp: kr)
    have "distinct (map fst rs)" using Cons.prems(1) by simp
    from Cons.IH[OF this in_rs] show ?thesis using ne
      by (auto simp: kr split: option.splits sum.splits)
  qed
qed

lemma before_raise_subset: "set (before_raise rs) \<subseteq> set rs"
  by (auto simp: before_raise_def dest: set_takeWhileD)

lemma before_raise_sound:
  "list_all (\<lambda>kr. sound (snd kr)) rs \<Longrightarrow> list_all (\<lambda>kr. sound (snd kr)) (before_raise rs)"
  using before_raise_subset[of rs] by (auto simp: list_all_iff)

lemma amazon_defaults_dom: "dom (amazon_defaults f) = set field_names"
  by (simp add: amazon_defaults_def field_names_def insert_commute)

lemma flipkart_defaults_dom: "dom (flipkart_defaults f) = set field_names"
  by (simp add: flipkart_defaults_def field_names_def insert_commute)

lemma amazon_defaults_str: "amazon_defaults f k = Some v \<Longrightarrow> is_str v"
  by (auto simp: amazon_defaults_def is_str_def split: if_splits)

lemma flipkart_defaults_str: "flipkart_defaults f k = Some v \<Longrightarrow> is_str v"
  by (auto simp: flipkart_defaults_def is_str_def split: if_splits)

lemma amazon_rules_keys: "fst ` set (amazon_rules U text) \<subseteq> set field_names"
  by (simp add: amazon_rules_def field_names_def)

lemma flipkart_rules_keys: "fst ` set (flipkart_rules U text) \<subseteq> set field_names"
  by (simp add: flipkart_rules_def field_names_def)

lemma amazon_rules_distinct: "distinct (map fst (amazon_rules U text))"
  by (simp add: amazon_rules_def)

lemma flipkart_rules_distinct: "distinct (map fst (flipkart_rules U text))"
  by (simp add: flipkart_rules_def)

lemma extract_amazon_eq:
  "extract_amazon_invoice U text f = apply_rules (amazon_rules U text) (amazon_defaults f)"
  using sound_amazon_rules[of U "text"]
  by (simp add: extract_amazon_invoice_def run_rules_fst before_raise_all list_all_iff sound_not_raises)

lemma extract_flipkart_eq:
  "extract_flipkart_invoice U text f = apply_rules (flipkart_rules U text) (flipkart_defaults f)"
  using sound_flipkart_rules[of U "text"]
  by (simp add: extract_flipkart_invoice_def run_rules_fst before_raise_all list_all_iff sound_not_raises)

lemma extract_amazon_lookup:
  assumes "(k, r) \<in> set (amazon_rules U text)"
  shows "extract_amazon_invoice U text f k =
           (case r of Some (Inr v) \<Rightarrow> Some v | _ \<Rightarrow> amazon_defaults f k)"
  unfolding extract_amazon_eq by (rule apply_rules_lookup[OF amazon_rules_distinct assms])

lemma extract_flipkart_lookup:
  assumes "(k, r) \<in> set (flipkart_rules U text)"
  shows "extract_flipkart_invoice U text f k =
           (case r of Some (Inr v) \<Rightarrow> Some v | _ \<Rightarrow> flipkart_defaults f k)"
  unfolding extract_flipkart_eq by (rule apply_rules_lookup[OF flipkart_rules_distinct assms])

text \<open>
  Claim C1. Whatever the text and the file name, the record that either extractor returns
  has exactly the 21 fields of the schema as its keys, and each of them is bound to a
  string (never to \<^verbatim>\<open>None\<close>), whether or not any pattern matched.
\<close>

theorem extract_record_complete:
  "length field_names = 21 \<and> distinct field_names
   \<and> dom (extract_amazon_invoice U text filename) = set field_names
   \<and> dom (extract_flipkart_invoice U text filename) = set field_names
   \<and> (\<forall>k \<in> set field_names. \<exists>s. extract_amazon_invoice U text filename k = Some (PStr s))
   \<and> (\<forall>k \<in> set field_names. \<exists>s. extract_flipkart_invoice U text filename k = Some (PStr s))"
proof -
  have n: "length field_names = 21 \<and> distinct field_names"
    by (simp add: field_names_def)
  have da: "dom (extract_amazon_invoice U text filename) = set field_names"
    unfolding extract_amazon_eq
    using apply_rules_dom[of "amazon_rules U text" "amazon_defaults filename"]
      amazon_rules_keys[of U "text"] by (simp add: amazon_defaults_dom)
  have df: "dom (extract_flipkart_invoice U text filename) = set field_names"
    unfolding extract_flipkart_eq
    using apply_rules_dom[of "flipkart_rules U text" "flipkart_defaults filename"]
      flipkart_rules_keys[of U "text"] by (simp add: flipkart_defaults_dom)
  have sa: "\<exists>s. extract_amazon_invoice U text filename k = Some (PStr s)"
    if "k \<in> set field_names" for k
  proof -
    from that da obtain v where v: "extract_amazon_invoice U text filename k = Some v" by blast
    then have "is_str v"
      unfolding extract_amazon_eq
      using apply_rules_str[of "amazon_defaults filename" "amazon_rules U text" k v]
        amazon_defaults_str[of filename] sound_amazon_rules[of U "text"] by blast
    with v show ?thesis by (auto dest: is_strE)
  qed
  have sf: "\<exists>s. extract_flipkart_invoice U text filename k = Some (PStr s)"
    if "k \<in> set field_names" for k
  proof -
    from that df obtain v where v: "extract_flipkart_invoice U text filename k = Some v" by blast
    then have "is_str v"
      unfolding extract_flipkart_eq
      using apply_rules_str[of "flipkart_defaults filename" "flipkart_rules U text" k v]
        flipkart_defaults_str[of filename] sound_flipkart_rules[of U "text"] by blast
    with v show ?thesis by (auto dest: is_strE)
  qed
  show ?thesis using n da df sa sf by blast
qed

theorem extract_record_complete_witness:
  "''Quantity'' \<in> set field_names
   \<and> dom (extract_amazon_invoice ascii_tables (u ''Tax Invoice'') (u ''scan.pdf'')) = set field_names
   \<and> (\<exists>s. extract_amazon_invoice ascii_tables (u ''Tax Invoice'') (u ''scan.pdf'') ''Quantity''
            = Some (PStr s))
   \<and> (\<exists>s. extract_flipkart_invoice ascii_tables (u ''Tax Invoice'') (u ''scan.pdf'') ''Quantity''
            = Some (PStr s))"
proof -
  have m: "''Quantity'' \<in> set field_names" by (simp add: field_names_def)
  show ?thesis
    using extract_record_complete[of ascii_tables "u ''Tax Invoice''" "u ''scan.pdf''"] m
    by blast
qed

lemmas frag_defs = ws0_def ws1_def colon_ws_def star_def plus_def opt1_def exactly_def
  digits_dash_def space_def digit_def amount_def Rs_def rupee_def ord_def upper_digit_def
  any_lazy_def any_greedy_def line_rest_def no_colon_lazy_def upto_rupee_def date_chars_def

lemmas table_defs = ascii_tables_def ascii_lower_def ignorecase_def no_flags_def ignorecase_dotall_def

lemmas block_defs = stripped_group_def currency_group_def date_group_def address_group_def
  re_search_def match_at_def py_strip_def group_def strip_def Let_def

lemma amazon_defaults_value:
  "k \<in> fst ` set (amazon_rules U text) \<Longrightarrow> amazon_defaults f k = Some (PStr (default_value k))"
  by (auto simp: amazon_rules_def amazon_defaults_def default_value_def amount_fields_def)

lemma flipkart_defaults_value:
  "k \<in> fst ` set (flipkart_rules U text) \<Longrightarrow> flipkart_defaults f k = Some (PStr (default_value k))"
  by (auto simp: flipkart_rules_def flipkart_defaults_def default_value_def amount_fields_def)

text \<open>
  Claim C5 as stated fails: with no price line in the text the Amazon quantity pattern
  does not match, and the field \<^verbatim>\<open>Quantity\<close> holds its default \<^verbatim>\<open>1\<close>, which is neither
  \<^verbatim>\<open>N/A\<close> nor \<^verbatim>\<open>0.00\<close>.
\<close>

theorem default_sentinel_counterexample:
  "amazon_quantity ascii_tables (u ''Tax Invoice'') = None
   \<and> extract_amazon_invoice ascii_tables (u ''Tax Invoice'') (u ''scan.pdf'') ''Quantity''
       = Some (PStr (u ''1''))
   \<and> u ''1'' \<noteq> u ''N/A'' \<and> u ''1'' \<noteq> u ''0.00''"
proof -
  have q: "amazon_quantity ascii_tables (u ''Tax Invoice'') = None"
    by (simp add: amazon_quantity_def qty_pattern_def block_defs u_def frag_defs table_defs)
  have i: "(''Quantity'', amazon_quantity ascii_tables (u ''Tax Invoice''))
             \<in> set (amazon_rules ascii_tables (u ''Tax Invoice''))"
    by (simp add: amazon_rules_def)
  have "extract_amazon_invoice ascii_tables (u ''Tax Invoice'') (u ''scan.pdf'') ''Quantity''
          = amazon_defaults (u ''scan.pdf'') ''Quantity''"
    using extract_amazon_lookup[OF i, of "u ''scan.pdf''"] by (simp add: q)
  then show ?thesis using q by (simp add: amazon_defaults_def u_def)
qed

text \<open>
  Claim C5, amended. For every text, every field whose block stores nothing (no pattern
  of its rule matched) holds its default in the record returned: \<^verbatim>\<open>1\<close> for the quantity,
  \<^verbatim>\<open>0.00\<close> for the six amount fields, and \<^verbatim>\<open>N/A\<close> for every other field that has a
  block.
\<close>

theorem unmatched_fields_keep_defaults:
  "(\<forall>kr \<in> set (amazon_rules U text). snd kr = None \<longrightarrow>
       extract_amazon_invoice U text filename (fst kr) = Some (PStr (default_value (fst kr))))
   \<and> (\<forall>kr \<in> set (flipkart_rules U text). snd kr = None \<longrightarrow>
       extract_flipkart_invoice U text filename (fst kr) = Some (PStr (default_value (fst kr))))"
proof (intro conjI ballI impI)
  fix kr assume kr: "kr \<in> set (amazon_rules U text)" and n: "snd kr = None"
  obtain k r where p: "kr = (k, r)" by (cases kr)
  have "k \<in> fst ` set (amazon_rules U text)" using kr p by force
  from amazon_defaults_value[OF this, of filename] extract_amazon_lookup[of k r U "text" filename]
  show "extract_amazon_invoice U text filename (fst kr) = Some (PStr (default_value (fst kr)))"
    using kr n p by simp
next
  fix kr assume kr: "kr \<in> set (flipkart_rules U text)" and n: "snd kr = None"
  obtain k r where p: "kr = (k, r)" by (cases kr)
  have "k \<in> fst ` set (flipkart_rules U text)" using kr p by force
  from flipkart_defaults_value[OF this, of filename] extract_flipkart_lookup[of k r U "text" filename]
  show "extract_flipkart_invoice U text filename (fst kr) = Some (PStr (default_value (fst kr)))"
    using kr n p by simp
qed

theorem unmatched_fields_keep_defaults_witness:
  "(''Order Number'', amazon_order_number ascii_tables (u ''Tax Invoice''))
      \<in> set (amazon_rules ascii_tables (u ''Tax Invoice''))
   \<and> amazon_order_number ascii_tables (u ''Tax Invoice'') = None
   \<and> extract_amazon_invoice ascii_tables (u ''Tax Invoice'') (u ''scan.pdf'') ''Order Number''
       = Some (PStr (u ''N/A''))
   \<and> (''Unit Price'', flipkart_unit_price ascii_tables (u ''Tax Invoice''))
      \<in> set (flipkart_rules ascii_tables (u ''Tax Invoice''))
   \<and> flipkart_unit_price ascii_tables (u ''Tax Invoice'') = None
   \<and> extract_flipkart_invoice ascii_tables (u ''Tax Invoice'') (u ''scan.pdf'') ''Unit Price''
       = Some (PStr (u ''0.00''))"
proof -
  have i1: "(''Order Number'', amazon_order_number ascii_tables (u ''Tax Invoice''))
      \<in> set (amazon_rules ascii_tables (u ''Tax Invoice''))"
    by (simp add: amazon_rules_def)
  have n1: "amazon_order_number ascii_tables (u ''Tax Invoice'') = None"
    by (simp add: amazon_order_number_def amazon_order_patterns_def block_defs u_def frag_defs table_defs)
  have i2: "(''Unit Price'', flipkart_unit_price ascii_tables (u ''Tax Invoice''))
      \<in> set (flipkart_rules ascii_tables (u ''Tax Invoice''))"
    by (simp add: flipkart_rules_def)
  have n2: "flipkart_unit_price ascii_tables (u ''Tax Invoice'') = None"
    by (simp add: flipkart_unit_price_def gross_amount_pattern_def block_defs u_def frag_defs table_defs)
  have d1: "default_value ''Order Number'' = u ''N/A''"
    by (simp add: default_value_def amount_fields_def)
  have d2: "default_value ''Unit Price'' = u ''0.00''"
    by (simp add: default_value_def amount_fields_def)
  have a: "extract_amazon_invoice ascii_tables (u ''Tax Invoice'') (u ''scan.pdf'') ''Order Number''
       = Some (PStr (u ''N/A''))"
    using unmatched_fields_keep_defaults[of ascii_tables "u ''Tax Invoice''" "u ''scan.pdf''"]
      i1 n1 d1 by fastforce
  have b: "extract_flipkart_invoice ascii_tables (u ''Tax Invoice'') (u ''scan.pdf'') ''Unit Price''
       = Some (PStr (u ''0.00''))"
    using unmatched_fields_keep_defaults[of ascii_tables "u ''Tax Invoice''" "u ''scan.pdf''"]
      i2 n2 d2 by fastforce
  show ?thesis using i1 n1 i2 n2 a b by simp
qed

lemma scenario_order_number:
  "amazon_order_number ascii_tables scenario_text = Some (Inr (PStr (u ''402-1234567-1234567'')))"
  by (simp add: amazon_order_number_def amazon_order_patterns_def block_defs
      scenario_text_def u_def frag_defs table_defs)

lemma scenario_invoice_date:
  "amazon_invoice_date ascii_tables scenario_text = Some (Inr (PStr (u ''01/02/2023'')))"
  by (simp add: amazon_invoice_date_def invoice_date_pattern_def block_defs
      standardize_date_def date_patterns_def dmy_pattern_def ymd_pattern_def py_len_def py_str_def
      scenario_text_def u_def frag_defs table_defs)

lemma scenario_unit_price:
  "amazon_unit_price ascii_tables scenario_text = Some (Inr (PStr (u ''199.00'')))"
  by (simp add: amazon_unit_price_def unit_price_pattern_def block_defs
      clean_currency_def truthy_def py_str_def re_sub_def
      scenario_text_def u_def frag_defs table_defs)

lemma scenario_tax_rate:
  "amazon_tax_rate ascii_tables scenario_text = Some (Inr (PStr (u ''5%'')))"
  by (simp add: amazon_tax_rate_def tax_rate_pattern_def block_defs py_str_def
      scenario_text_def u_def frag_defs table_defs)

lemma scenario_tax_amount:
  "amazon_tax_amount ascii_tables scenario_text = Some (Inr (PStr (u ''9.95'')))"
  by (simp add: amazon_tax_amount_def tax_amount_pattern_def block_defs
      clean_currency_def truthy_def py_str_def re_sub_def
      scenario_text_def u_def frag_defs table_defs)

lemma scenario_detect:
  "detect_invoice_type ascii_tables scenario_text (u ''amazon_invoice.pdf'') = u ''amazon''"
  by (simp add: detect_invoice_type_def Let_def u_def table_defs prefix_code)

text \<open>
  Claim C7. On the text of the scenario, with the file name \<^verbatim>\<open>amazon_invoice.pdf\<close> (for which
  the detector answers \<^verbatim>\<open>amazon\<close>), the Amazon rule set gives the order number
  \<^verbatim>\<open>402-1234567-1234567\<close>, the invoice date \<^verbatim>\<open>01/02/2023\<close>, the unit price \<^verbatim>\<open>199.00\<close>, the
  tax rate \<^verbatim>\<open>5%\<close> and the tax amount \<^verbatim>\<open>9.95\<close>.
\<close>

theorem scenario_extraction:
  "detect_invoice_type ascii_tables scenario_text (u ''amazon_invoice.pdf'') = u ''amazon''
   \<and> extract_amazon_invoice ascii_tables scenario_text (u ''amazon_invoice.pdf'') ''Order Number''
       = Some (PStr (u ''402-1234567-1234567''))
   \<and> extract_amazon_invoice ascii_tables scenario_text (u ''amazon_invoice.pdf'') ''Invoice Date''
       = Some (PStr (u ''01/02/2023''))
   \<and> extract_amazon_invoice ascii_tables scenario_text (u ''amazon_invoice.pdf'') ''Unit Price''
       = Some (PStr (u ''199.00''))
   \<and> extract_amazon_invoice ascii_tables scenario_text (u ''amazon_invoice.pdf'') ''Tax Rate''
       = Some (PStr (u ''5%''))
   \<and> extract_amazon_invoice ascii_tables scenario_text (u ''amazon_invoice.pdf'') ''Tax Amount''
       = Some (PStr (u ''9.95''))"
proof -
  let ?U = ascii_tables and ?t = scenario_text and ?f = "u ''amazon_invoice.pdf''"
  have 1: "extract_amazon_invoice ?U ?t ?f ''Order Number'' = Some (PStr (u ''402-1234567-1234567''))"
    using extract_amazon_lookup[of "''Order Number''" "amazon_order_number ?U ?t" ?U ?t ?f]
    by (simp add: amazon_rules_def scenario_order_number)
  have 2: "extract_amazon_invoice ?U ?t ?f ''Invoice Date'' = Some (PStr (u ''01/02/2023''))"
    using extract_amazon_lookup[of "''Invoice Date''" "amazon_invoice_date ?U ?t" ?U ?t ?f]
    by (simp add: amazon_rules_def scenario_invoice_date)
  have 3: "extract_amazon_invoice ?U ?t ?f ''Unit Price'' = Some (PStr (u ''199.00''))"
    using extract_amazon_lookup[of "''Unit Price''" "amazon_unit_price ?U ?t" ?U ?t ?f]
    by (simp add: amazon_rules_def scenario_unit_price)
  have 4: "extract_amazon_invoice ?U ?t ?f ''Tax Rate'' = Some (PStr (u ''5%''))"
    using extract_amazon_lookup[of "''Tax Rate''" "amazon_tax_rate ?U ?t" ?U ?t ?f]
    by (simp add: amazon_rules_def scenario_tax_rate)
  have 5: "extract_amazon_invoice ?U ?t ?f ''Tax Amount'' = Some (PStr (u ''9.95''))"
    using extract_amazon_lookup[of "''Tax Amount''" "amazon_tax_amount ?U ?t" ?U ?t ?f]
    by (simp add: amazon_rules_def scenario_tax_amount)
  show ?thesis using scenario_detect 1 2 3 4 5 by simp
qed

text \<open>
  Claim C9. The extractors return a record whatever happens in the body: the result of
  the guarded body is the dictionary updated by the blocks that come before the first
  block that raises, every later field keeping the value it had (its default). This
  holds of any list of blocks and so of the two rule sets; on these, moreover, no block
  raises on any text.
\<close>

theorem extraction_never_propagates:
  "fst (run_rules rs d) = apply_rules (before_raise rs) d
   \<and> extract_amazon_invoice U text filename
       = apply_rules (before_raise (amazon_rules U text)) (amazon_defaults filename)
   \<and> extract_flipkart_invoice U text filename
       = apply_rules (before_raise (flipkart_rules U text)) (flipkart_defaults filename)
   \<and> snd (run_rules (amazon_rules U text) (amazon_defaults filename)) = None
   \<and> snd (run_rules (flipkart_rules U text) (flipkart_defaults filename)) = None"
proof -
  have a: "list_all (\<lambda>kr. \<not> raises (snd kr)) (amazon_rules U text)"
    using sound_amazon_rules[of U "text"] by (simp add: list_all_iff sound_not_raises)
  have f: "list_all (\<lambda>kr. \<not> raises (snd kr)) (flipkart_rules U text)"
    using sound_flipkart_rules[of U "text"] by (simp add: list_all_iff sound_not_raises)
  show ?thesis
    using run_rules_snd[OF a] run_rules_snd[OF f]
    by (simp add: run_rules_fst extract_amazon_invoice_def extract_flipkart_invoice_def)
qed

theorem extraction_never_propagates_witness:
  "run_rules [(''Order Number'', Some (Inr (PStr (u ''402-1'')))),
              (''Invoice Number'', Some (Inl AttributeError)),
              (''HSN Code'', Some (Inr (PStr (u ''8517''))))]
             (amazon_defaults (u ''scan.pdf''))
     = ((amazon_defaults (u ''scan.pdf''))(''Order Number'' \<mapsto> PStr (u ''402-1'')),
        Some AttributeError)
   \<and> before_raise [(''Order Number'', Some (Inr (PStr (u ''402-1'')))),
              (''Invoice Number'', Some (Inl AttributeError)),
              (''HSN Code'', Some (Inr (PStr (u ''8517''))))]
     = [(''Order Number'', Some (Inr (PStr (u ''402-1''))))]
   \<and> fst (run_rules [(''Order Number'', Some (Inr (PStr (u ''402-1'')))),
              (''Invoice Number'', Some (Inl AttributeError)),
              (''HSN Code'', Some (Inr (PStr (u ''8517''))))]
             (amazon_defaults (u ''scan.pdf''))) ''HSN Code'' = Some (PStr (u ''N/A''))"
proof -
  let ?rs = "[(''Order Number'', Some (Inr (PStr (u ''402-1'')))),
              (''Invoice Number'', Some (Inl AttributeError)),
              (''HSN Code'', Some (Inr (PStr (u ''8517''))))]"
  have r: "run_rules ?rs (amazon_defaults (u ''scan.pdf''))
     = ((amazon_defaults (u ''scan.pdf''))(''Order Number'' \<mapsto> PStr (u ''402-1'')), Some AttributeError)"
    by (simp add: assign_def)
  have b: "before_raise ?rs = [(''Order Number'', Some (Inr (PStr (u ''402-1''))))]"
    by (simp add: before_raise_def raises_def)
  have "fst (run_rules ?rs (amazon_defaults (u ''scan.pdf''))) ''HSN Code''
          = apply_rules (before_raise ?rs) (amazon_defaults (u ''scan.pdf'')) ''HSN Code''"
    using extraction_never_propagates[of ?rs "amazon_defaults (u ''scan.pdf'')"] by simp
  also have "\<dots> = Some (PStr (u ''N/A''))"
    by (simp add: b amazon_defaults_def)
  finally show ?thesis using r b by simp
qed

lemma product_scan_step:
  "product_scan U lines i j parts =
     (if j < length lines \<and> j < i + 5 then
        (if ends_scan U (strip U (lines ! j)) then parts
         else if has_keyword U (strip U (lines ! j)) then product_scan U lines i (Suc j) parts
         else product_scan U lines i (Suc j) (parts @ [strip U (lines ! j)]))
      else parts)"
  by (subst product_scan.simps) (auto simp: Let_def ends_scan_def has_keyword_def)

lemma product_scan_eq:
  "Suc i \<le> j \<Longrightarrow> j \<le> i + 5 \<Longrightarrow>
   product_scan U lines i j parts =
     parts @ filter (\<lambda>l. \<not> has_keyword U l)
               (takeWhile (\<lambda>l. \<not> ends_scan U l) (map (strip U) (take (i + 5 - j) (drop j lines))))"
proof (induction "i + 5 - j" arbitrary: j parts)
  case 0
  then have "\<not> j < i + 5" by simp
  then have "product_scan U lines i j parts = parts"
    by (subst product_scan_step) simp
  then show ?case using 0 by simp
next
  case (Suc n)
  show ?case
  proof (cases "j < length lines")
    case False
    then have "product_scan U lines i j parts = parts"
      by (subst product_scan_step) simp
    then show ?thesis using False by simp
  next
    case True
    then have d: "drop j lines = lines ! j # drop (Suc j) lines"
      by (simp add: Cons_nth_drop_Suc)
    let ?l = "strip U (lines ! j)"
    have t: "map (strip U) (take (i + 5 - j) (drop j lines))
               = ?l # map (strip U) (take n (drop (Suc j) lines))"
      using Suc(2) by (subst d) (simp add: Suc(2)[symmetric])
    have jn: "j < i + 5" using Suc(2) by simp
    have IH: "\<And>ps. product_scan U lines i (Suc j) ps =
       ps @ filter (\<lambda>l. \<not> has_keyword U l)
               (takeWhile (\<lambda>l. \<not> ends_scan U l) (map (strip U) (take n (drop (Suc j) lines))))"
    proof -
      fix ps
      have "n = i + 5 - Suc j" using Suc(2) by simp
      from Suc(1)[OF this, of ps] Suc(3) jn this show "?thesis ps" by simp
    qed
    show ?thesis
      by (subst product_scan_step) (simp add: True jn t IH)
  qed
qed

lemma product_scan_continuation:
  "product_scan U lines i (Suc i) parts = parts @ continuation_lines U lines i"
  using product_scan_eq[of i "Suc i" U lines parts] by (simp add: continuation_lines_def)

lemma product_loop_first:
  "product_loop U lines i rest =
     (let k = length (takeWhile (\<lambda>l. re_search U no_flags item_index l = None) rest)
      in if k < length rest then Some (Inr (PStr (product_name_at U lines (i + k)))) else None)"
  by (induction rest arbitrary: i) (auto simp: Let_def)

lemma item_text_lines:
  "split_on 10 item_text =
     [u ''1 Phone Case'', u ''Total pack of 2'', u ''Blue colour'', u ''HSN 8517'', u ''Made in India'']"
  by (simp add: item_text_def u_def)

lemma item_continuation:
  "continuation_lines ascii_tables (split_on 10 item_text) 0 = [u ''Blue colour'']"
  by (simp add: item_text_lines continuation_lines_def has_keyword_def ends_scan_def
      aggregate_keywords_def section_start_def re_match_def match_at_def strip_def
      u_def frag_defs table_defs prefix_code)

lemma item_spec_continuation:
  "spec_continuation_lines ascii_tables (split_on 10 item_text) 0 = []"
  by (simp add: item_text_lines spec_continuation_lines_def has_keyword_def
      aggregate_keywords_def section_start_def re_match_def match_at_def strip_def
      u_def frag_defs table_defs prefix_code)

lemma item_product_name:
  "amazon_product_name ascii_tables item_text = Some (Inr (PStr (u ''Phone Case Blue colour'')))"
proof -
  have s: "product_scan ascii_tables (split_on 10 item_text) 0 (Suc 0) [u ''Phone Case'']
             = [u ''Phone Case'', u ''Blue colour'']"
    by (simp add: product_scan_continuation item_continuation)
  have i: "re_search ascii_tables no_flags item_index (u ''1 Phone Case'') \<noteq> None"
    by (simp add: re_search_def match_at_def item_index_def u_def frag_defs table_defs)
  have r: "re_sub ascii_tables no_flags item_index [] (u ''1 Phone Case'') = u ''Phone Case''"
    by (simp add: re_sub_def match_at_def item_index_def u_def frag_defs table_defs)
  have p: "re_sub ascii_tables no_flags price_info [] (u ''Phone Case Blue colour'')
             = u ''Phone Case Blue colour''"
    by (simp add: re_sub_def match_at_def price_info_def u_def frag_defs table_defs)
  have j: "join (u '' '') [u ''Phone Case'', u ''Blue colour''] = u ''Phone Case Blue colour''"
    by (simp add: u_def)
  have t: "take 200 (strip ascii_tables (u ''Phone Case Blue colour'')) = u ''Phone Case Blue colour''"
    by (simp add: strip_def u_def table_defs)
  have n: "product_name_at ascii_tables (split_on 10 item_text) 0 = u ''Phone Case Blue colour''"
    unfolding product_name_at_def Let_def
    by (simp add: s[unfolded item_text_lines] item_text_lines r j p t del: join.simps)
  show ?thesis
    unfolding amazon_product_name_def Let_def
    using i n by (simp add: item_text_lines)
qed

text \<open>
  Claim C6 as stated fails. In the text below the line after the item line contains the
  keyword \<^verbatim>\<open>total\<close>; the scan does not stop there: it passes over that line and appends
  the next one, so the product name is \<^verbatim>\<open>Phone Case Blue colour\<close>, where stopping at the
  first line with a keyword would leave no continuation line at all.
\<close>

theorem product_scan_stop_counterexample:
  "has_keyword ascii_tables (u ''Total pack of 2'')
   \<and> spec_continuation_lines ascii_tables (split_on 10 item_text) 0 = []
   \<and> continuation_lines ascii_tables (split_on 10 item_text) 0 = [u ''Blue colour'']
   \<and> amazon_product_name ascii_tables item_text = Some (Inr (PStr (u ''Phone Case Blue colour'')))"
proof -
  have k: "has_keyword ascii_tables (u ''Total pack of 2'')"
    by (simp add: has_keyword_def aggregate_keywords_def u_def table_defs prefix_code)
  show ?thesis using k item_spec_continuation item_continuation item_product_name by simp
qed

text \<open>
  Claim C6, amended. Once the first line that carries the item index is found (line \<open>k\<close>
  below) and the index removed from it, the four lines that follow are scanned at most.
  The scan ends at the first of them that, trimmed, is empty or starts a new section of
  the table. Each line scanned before that is appended, trimmed, unless it contains an
  aggregate keyword, in which case it is passed over and the scan goes on. The parts are
  joined with single spaces, the price information is removed to the end, and the result
  is trimmed and cut to 200 characters.
\<close>

theorem product_name_scan:
  "product_scan U lines i (Suc i) parts = parts @ continuation_lines U lines i
   \<and> length (continuation_lines U lines i) \<le> 4
   \<and> product_name_at U lines i =
       take 200 (strip U (re_sub U no_flags price_info []
         (join (u '' '') (re_sub U no_flags item_index [] (lines ! i) # continuation_lines U lines i))))
   \<and> length (product_name_at U lines i) \<le> 200
   \<and> amazon_product_name U text =
       (let lines = split_on 10 text;
            k = length (takeWhile (\<lambda>l. re_search U no_flags item_index l = None) lines)
        in if k < length lines then Some (Inr (PStr (product_name_at U lines k))) else None)"
proof -
  have 1: "product_scan U lines i (Suc i) parts = parts @ continuation_lines U lines i" for parts
    by (rule product_scan_continuation)
  have "length (continuation_lines U lines i)
          \<le> length (takeWhile (\<lambda>l. \<not> ends_scan U l) (map (strip U) (take 4 (drop (Suc i) lines))))"
    unfolding continuation_lines_def by (rule length_filter_le)
  also have "\<dots> \<le> length (map (strip U) (take 4 (drop (Suc i) lines)))"
    by (rule length_takeWhile_le)
  also have "\<dots> \<le> 4" by simp
  finally have 2: "length (continuation_lines U lines i) \<le> 4" .
  have 3: "product_name_at U lines i =
       take 200 (strip U (re_sub U no_flags price_info []
         (join (u '' '') (re_sub U no_flags item_index [] (lines ! i) # continuation_lines U lines i))))"
    by (simp add: product_name_at_def Let_def 1 del: join.simps)
  have 4: "length (product_name_at U lines i) \<le> 200"
    by (simp add: product_name_at_def Let_def)
  have 5: "amazon_product_name U text =
       (let lines = split_on 10 text;
            k = length (takeWhile (\<lambda>l. re_search U no_flags item_index l = None) lines)
        in if k < length lines then Some (Inr (PStr (product_name_at U lines k))) else None)"
    by (simp add: amazon_product_name_def product_loop_first Let_def)
  show ?thesis using 1 2 3 4 5 by blast
qed

theorem product_name_scan_witness:
  "product_scan ascii_tables (split_on 10 item_text) 0 (Suc 0) [u ''Phone Case'']
     = [u ''Phone Case'', u ''Blue colour'']
   \<and> length (product_name_at ascii_tables (split_on 10 item_text) 0) \<le> 200"
  using product_name_scan[of ascii_tables "split_on 10 item_text" 0 "[u ''Phone Case'']"]
  by (simp add: item_continuation)

end
